theory Spec2Isabelle
  imports Complex_Main "HOL-Library.Word"
begin

section \<open>Values of the JavaScript runtime\<close>

text \<open>
  A Node \<open>Buffer\<close> is a sequence of bytes; only its length and its identity are used.
  A thrown exception is a value; every \<open>try\<close>/\<open>catch\<close> of the source is a case split
  on a sum whose left injection is the error.
\<close>

type_synonym buffer = "8 word list"

datatype js_error = TypeError | RangeError | Thrown string

text \<open>
  A \<open>Date\<close> object holds a time value in milliseconds, or NaN (an invalid date).
  A \<open>Date\<close> object is always truthy, also when invalid.
\<close>

datatype js_date = DateMs int | InvalidDate

text \<open>
  \<open>new Date(t * 1000)\<close> for a timestamp read from the archive (epoch seconds, an
  integer or \<open>undefined\<close>): \<open>undefined * 1000\<close> is NaN, and a time value beyond
  8.64e15 ms is clipped to NaN.
\<close>

definition newDate :: "int option \<Rightarrow> js_date" where
  "newDate t = (case t of
       None \<Rightarrow> InvalidDate
     | Some s \<Rightarrow> (if \<bar>s * 1000\<bar> \<le> 8640000000000000 then DateMs (s * 1000) else InvalidDate))"

text \<open>Truthiness of an optional number: \<open>undefined\<close> and \<open>0\<close> are falsy.\<close>

definition truthyNum :: "int option \<Rightarrow> bool" where
  "truthyNum t = (case t of None \<Rightarrow> False | Some s \<Rightarrow> s \<noteq> 0)"

definition truthyNat :: "nat option \<Rightarrow> bool" where
  "truthyNat t = (case t of None \<Rightarrow> False | Some s \<Rightarrow> s \<noteq> 0)"

text \<open>Truthiness of an optional string: \<open>null\<close>, \<open>undefined\<close> and \<open>""\<close> are falsy.\<close>

definition truthyStr :: "string option \<Rightarrow> bool" where
  "truthyStr s = (case s of None \<Rightarrow> False | Some x \<Rightarrow> x \<noteq> [])"

text \<open>Relational comparison of two dates; any comparison with NaN is false.\<close>

fun dateLess :: "js_date \<Rightarrow> js_date \<Rightarrow> bool" where
  "dateLess (DateMs a) (DateMs b) = (a < b)"
| "dateLess _ _ = False"

definition dateGreater :: "js_date \<Rightarrow> js_date \<Rightarrow> bool" where
  "dateGreater a b = dateLess b a"

text \<open>\<open>Date.prototype.toISOString\<close> throws a RangeError on an invalid date.\<close>

definition toISOString :: "js_date \<Rightarrow> js_error + int" where
  "toISOString d = (case d of InvalidDate \<Rightarrow> Inl RangeError | DateMs ms \<Rightarrow> Inr ms)"

section \<open>Log and effect trace\<close>

text \<open>
  Each call of the logger and each call of the image library's resize is one entry,
  in program order. The rendered message texts are not modelled, only which log
  statement ran and the values it was given.
\<close>

datatype event =
    WarnImageTooLarge nat string
  | ErrorNoDimensions
  | SharpResize "nat option" "nat option"
  | InfoDimensions
  | ErrorResizedTooLarge nat
  | InfoResized nat
  | ErrorProcessImage string js_error
  | WarnUnsupportedType string
  | ErrorReadMedia string js_error
  | DebugSourceMedia string string bool
  | WarnTooManyImages

section \<open>image.ts\<close>

definition API_LIMIT_IMAGE_UPLOAD_SIZE :: nat where
  "API_LIMIT_IMAGE_UPLOAD_SIZE = 976000"

definition IMAGE_LENGTH_LIMIT :: nat where
  "IMAGE_LENGTH_LIMIT = 1920"

record image_meta =
  width :: "nat option"
  height :: "nat option"

text \<open>
  The file system and the image library \<open>sharp\<close> are external: what reading a file,
  reading an image's metadata and resizing return (or throw) is a parameter.
  \<open>showNumber\<close> is the runtime's conversion of a number to a string in a template.
\<close>

record fs_env =
  readFileSync :: "string \<Rightarrow> js_error + buffer"
  sharpMetadata :: "buffer \<Rightarrow> js_error + image_meta"
  sharpResize :: "buffer \<Rightarrow> nat option \<Rightarrow> nat option \<Rightarrow> js_error + buffer"
  showNumber :: "real \<Rightarrow> string"

text \<open>
  \<open>processImageBuffer\<close> (image.ts 16-81). The whole body after the first warning is
  inside one \<open>try\<close>; every exception ends in the \<open>catch\<close>, which logs and returns
  \<open>null\<close>. The result is the trace and the returned buffer (\<open>None\<close> is \<open>null\<close>).
\<close>

definition processImageBuffer :: "fs_env \<Rightarrow> buffer \<Rightarrow> string \<Rightarrow> event list \<times> buffer option" where
  "processImageBuffer env mediaBuffer filename =
    (if length mediaBuffer \<le> API_LIMIT_IMAGE_UPLOAD_SIZE then ([], Some mediaBuffer)
     else
       let log0 = [WarnImageTooLarge (length mediaBuffer) filename] in
       case sharpMetadata env mediaBuffer of
         Inl e \<Rightarrow> (log0 @ [ErrorProcessImage filename e], None)
       | Inr imageMeta \<Rightarrow>
           if \<not> truthyNat (width imageMeta) \<or> \<not> truthyNat (height imageMeta)
           then (log0 @ [ErrorNoDimensions], None)
           else
             let w0 = (if the (width imageMeta) > the (height imageMeta)
                       then Some IMAGE_LENGTH_LIMIT else None);
                 h = (if the (height imageMeta) > the (width imageMeta)
                      then Some IMAGE_LENGTH_LIMIT else None);
                 w = (if \<not> truthyNat w0 \<and> \<not> truthyNat h then Some IMAGE_LENGTH_LIMIT else w0);
                 log1 = log0 @ [SharpResize w h]
             in case sharpResize env mediaBuffer w h of
                  Inl e \<Rightarrow> (log1 @ [ErrorProcessImage filename e], None)
                | Inr bufferResized \<Rightarrow>
                    (case sharpMetadata env bufferResized of
                       Inl e \<Rightarrow> (log1 @ [ErrorProcessImage filename e], None)
                     | Inr metaResized \<Rightarrow>
                         if length bufferResized > API_LIMIT_IMAGE_UPLOAD_SIZE
                         then (log1 @ [InfoDimensions, ErrorResizedTooLarge (length bufferResized)], None)
                         else (log1 @ [InfoDimensions, InfoResized (length bufferResized)],
                               Some bufferResized)))"

text \<open>
  Modelled from the spec: \<open>isImageTooLarge\<close> of image.ts is not among the sources;
  the spec fixes the image upload ceiling at 976,000 bytes and the tests of the
  repository check that a buffer of exactly 976,000 bytes is not too large.
\<close>

definition isImageTooLarge :: "buffer \<Rightarrow> bool" where
  "isImageTooLarge b = (length b > API_LIMIT_IMAGE_UPLOAD_SIZE)"

text \<open>
  \<open>String.prototype.toLowerCase\<close> on the ASCII letters: the codes 65 to 90 have
  bit 5 clear, and setting it adds 32.
\<close>

definition toLowerChar :: "char \<Rightarrow> char" where
  "toLowerChar c =
    (if 65 \<le> (of_char c :: nat) \<and> (of_char c :: nat) \<le> 90
     then (case c of Char b0 b1 b2 b3 b4 b5 b6 b7 \<Rightarrow> Char b0 b1 b2 b3 b4 True b6 b7)
     else c)"

definition toLowerCase :: "string \<Rightarrow> string" where
  "toLowerCase s = map toLowerChar s"

text \<open>
  Modelled from the spec: \<open>getImageMimeType\<close> of image.ts is not among the sources;
  the spec gives a case-insensitive lookup in the image table jpg/jpeg/png/webp/heic,
  and the empty string for any other extension.
\<close>

definition getImageMimeType :: "string \<Rightarrow> string" where
  "getImageMimeType fileType =
    (let t = toLowerCase fileType in
     if t = ''jpg'' \<or> t = ''jpeg'' then ''image/jpeg''
     else if t = ''png'' then ''image/png''
     else if t = ''webp'' then ''image/webp''
     else if t = ''heic'' then ''image/heic''
     else [])"

section \<open>video.ts\<close>

text \<open>
  Modelled from the spec: \<open>getVideoMimeType\<close> of video.ts is not among the sources;
  the spec gives a case-insensitive lookup in the video table mp4/mov, and the empty
  string for any other extension.
\<close>

definition getVideoMimeType :: "string \<Rightarrow> string" where
  "getVideoMimeType fileType =
    (let t = toLowerCase fileType in
     if t = ''mp4'' then ''video/mp4''
     else if t = ''mov'' then ''video/quicktime''
     else [])"

text \<open>
  Modelled from the spec: \<open>isVideoMimeType\<close> of video.ts is not among the sources; the
  kind is video for the MIME types that start with \<open>video/\<close>, as the tests of the
  repository check.
\<close>

definition isVideoMimeType :: "string \<Rightarrow> bool" where
  "isVideoMimeType mime = (take 6 mime = ''video/'')"

text \<open>
  Modelled from the spec: \<open>validateVideo\<close> of video.ts is not among the sources; the
  spec accepts a video when its length is at most 100 * 1024 * 1024 bytes.
\<close>

definition MAX_VIDEO_SIZE :: nat where
  "MAX_VIDEO_SIZE = 100 * 1024 * 1024"

definition validateVideo :: "buffer \<Rightarrow> bool" where
  "validateVideo b = (length b \<le> MAX_VIDEO_SIZE)"

section \<open>media.ts\<close>

record exif_entry =
  latitude :: "real option"
  longitude :: "real option"

text \<open>
  One entry of \<open>post.media\<close>. \<open>m_exif_data\<close> is
  \<open>media_metadata?.photo_metadata?.exif_data\<close>, empty when any link of the chain is
  missing. \<open>m_type\<close>, \<open>m_media_url\<close> and \<open>m_buffer\<close> are read by the orchestrator only.
\<close>

record archive_media =
  m_uri :: string
  m_creation_timestamp :: "int option"
  m_title :: "string option"
  m_exif_data :: "exif_entry list"
  m_type :: "string option"
  m_media_url :: "string option"
  m_buffer :: "buffer option"

text \<open>One archive post; \<open>p_media\<close> is empty when \<open>post.media\<close> is missing or empty.\<close>

record archive_post =
  p_creation_timestamp :: "int option"
  p_title :: "string option"
  p_media :: "archive_media list"

record media_process_result =
  mediaText :: string
  mimeType :: "string option"
  mediaBuffer :: "buffer option"
  isVideo :: bool

datatype image_embed = ImageEmbedImpl string buffer string

datatype video_embed = VideoEmbedImpl string buffer string

datatype embedded = Images "image_embed list" | Video video_embed

text \<open>
  \<open>postText\<close> has the declared type \<open>string\<close>, but line 133 can store the
  \<open>undefined\<close> title of a media item in it, hence the option.
\<close>

record processed_post =
  postDate :: "js_date option"
  postText :: "string option"
  embeddedMedia :: embedded
  mediaCount :: nat

definition MAX_IMAGES_PER_POST :: nat where
  "MAX_IMAGES_PER_POST = 4"

definition POST_TEXT_LIMIT :: nat where
  "POST_TEXT_LIMIT = 300"

definition POST_TEXT_TRUNCATE_SUFFIX :: string where
  "POST_TEXT_TRUNCATE_SUFFIX = ''...''"

text \<open>\<open>getMimeType\<close> (media.ts 35-44): image lookup first, then video lookup, else a warning.\<close>

definition getMimeType :: "string \<Rightarrow> event list \<times> string" where
  "getMimeType fileType =
    (let imageMimeType = getImageMimeType fileType in
     if imageMimeType \<noteq> [] then ([], imageMimeType)
     else let videoMimeType = getVideoMimeType fileType in
       if videoMimeType \<noteq> [] then ([], videoMimeType)
       else ([WarnUnsupportedType fileType], []))"

text \<open>\<open>uri.substring(uri.lastIndexOf(".") + 1)\<close>: the whole string when there is no dot.\<close>

definition fileExtension :: "string \<Rightarrow> string" where
  "fileExtension u = rev (takeWhile (\<lambda>c. c \<noteq> CHR ''.'') (rev u))"

text \<open>A number or \<open>undefined\<close> inside a template literal.\<close>

definition showOptNumber :: "fs_env \<Rightarrow> real option \<Rightarrow> string" where
  "showOptNumber env x = (case x of None \<Rightarrow> ''undefined'' | Some r \<Rightarrow> showNumber env r)"

text \<open>
  The caption text of a media item before truncation (media.ts 81-87): the title, or
  the empty string, and the coordinates of the first EXIF entry when its latitude is a
  positive number.
\<close>

definition derivedMediaText :: "fs_env \<Rightarrow> archive_media \<Rightarrow> string" where
  "derivedMediaText env media =
    (let txt = (case m_title media of None \<Rightarrow> [] | Some t \<Rightarrow> t) in
     case m_exif_data media of
       [] \<Rightarrow> txt
     | location # _ \<Rightarrow>
         (case latitude location of
            None \<Rightarrow> txt
          | Some lat \<Rightarrow>
              if lat > 0
              then txt @ [CHR 0x0A] @ ''Photo taken at these geographical coordinates: geo:''
                     @ showNumber env lat @ '','' @ showOptNumber env (longitude location)
              else txt))"

text \<open>The truncation of media.ts 89-90.\<close>

definition truncatedMediaText :: "string \<Rightarrow> string" where
  "truncatedMediaText txt =
    (if length txt > 100 then take 100 txt @ ''...'' else txt)"

definition nullMediaResult :: media_process_result where
  "nullMediaResult = \<lparr>mediaText = [], mimeType = None, mediaBuffer = None, isVideo = False\<rparr>"

text \<open>
  \<open>processMedia\<close> (media.ts 46-104). A failed read is caught and gives the null
  result. The debug statement at the end calls \<open>mediaDate.toISOString()\<close>, which
  throws on the invalid date of a media item without a usable timestamp; nothing in
  \<open>processMedia\<close> catches it.
\<close>

definition processMedia ::
  "fs_env \<Rightarrow> archive_media \<Rightarrow> string \<Rightarrow> event list \<times> (js_error + media_process_result)" where
  "processMedia env media archiveFolder =
    (let mediaDate = newDate (m_creation_timestamp media);
         fileType = fileExtension (m_uri media);
         (log0, mime) = getMimeType fileType;
         mediaFilename = archiveFolder @ ''/'' @ m_uri media
     in case readFileSync env mediaFilename of
          Inl e \<Rightarrow> (log0 @ [ErrorReadMedia mediaFilename e], Inr nullMediaResult)
        | Inr read \<Rightarrow>
            (let (log1, processed) =
                   (if isImageTooLarge read \<and> mime \<noteq> []
                    then processImageBuffer env read mediaFilename
                    else ([], Some read))
             in case processed of
                  None \<Rightarrow> (log0 @ log1, Inr nullMediaResult)
                | Some buf \<Rightarrow>
                    (let truncatedText = truncatedMediaText (derivedMediaText env media);
                         isVid = isVideoMimeType mime
                     in case toISOString mediaDate of
                          Inl e \<Rightarrow> (log0 @ log1, Inl e)
                        | Inr created \<Rightarrow>
                            (log0 @ log1 @ [DebugSourceMedia mime mediaFilename isVid],
                             Inr \<lparr>mediaText = truncatedText, mimeType = Some mime,
                                  mediaBuffer = Some buf, isVideo = isVid\<rparr>))))"

text \<open>
  The image loop of \<open>processPost\<close> (media.ts 159-178). The list is the part of
  \<open>post.media\<close> from index \<open>j\<close> on; \<open>imgs\<close> and \<open>cnt\<close> are \<open>embeddedMedia\<close> and
  \<open>mediaCount\<close> so far.
\<close>

fun imageLoop ::
  "fs_env \<Rightarrow> string \<Rightarrow> archive_media list \<Rightarrow> nat \<Rightarrow> image_embed list \<Rightarrow> nat
     \<Rightarrow> event list \<times> (js_error + image_embed list \<times> nat)" where
  "imageLoop env archiveFolder [] j imgs cnt = ([], Inr (imgs, cnt))"
| "imageLoop env archiveFolder (m # rest) j imgs cnt =
    (if j \<ge> MAX_IMAGES_PER_POST then ([WarnTooManyImages], Inr (imgs, cnt))
     else case processMedia env m archiveFolder of
         (lg, Inl e) \<Rightarrow> (lg, Inl e)
       | (lg, Inr r) \<Rightarrow>
           (if \<not> truthyStr (mimeType r) \<or> mediaBuffer r = None \<or> isVideo r
            then (case imageLoop env archiveFolder rest (j + 1) imgs cnt of
                    (lg2, res) \<Rightarrow> (lg @ lg2, res))
            else (case imageLoop env archiveFolder rest (j + 1)
                         (imgs @ [ImageEmbedImpl (mediaText r) (the (mediaBuffer r)) (the (mimeType r))])
                         (cnt + 1) of
                    (lg2, res) \<Rightarrow> (lg @ lg2, res))))"

text \<open>
  \<open>processPost\<close> (media.ts 106-186). \<open>postDate || null\<close> keeps every \<open>Date\<close> object,
  also an invalid one; \<open>None\<close> is \<open>null\<close>.
\<close>

definition processPost ::
  "fs_env \<Rightarrow> archive_post \<Rightarrow> string \<Rightarrow> event list \<times> (js_error + processed_post)" where
  "processPost env post archiveFolder =
    (let media = p_media post;
         postDate0 = (if truthyNum (p_creation_timestamp post)
                      then Some (newDate (p_creation_timestamp post)) else None);
         title = (case p_title post of None \<Rightarrow> [] | Some t \<Rightarrow> t);
         postText0 = (if length title > POST_TEXT_LIMIT
                      then take (POST_TEXT_LIMIT - length POST_TEXT_TRUNCATE_SUFFIX) title
                             @ POST_TEXT_TRUNCATE_SUFFIX
                      else title)
     in case media of
          [] \<Rightarrow> ([], Inr \<lparr>postDate = postDate0, postText = Some postText0,
                          embeddedMedia = Images [], mediaCount = 0\<rparr>)
        | first # others \<Rightarrow>
            (let single = (length media = 1);
                 pText = (if single \<and> postText0 = [] then m_title first else Some postText0);
                 pDate = (if single \<and> postDate0 = None
                          then Some (newDate (m_creation_timestamp first)) else postDate0)
             in case processMedia env first archiveFolder of
                  (lg, Inl e) \<Rightarrow> (lg, Inl e)
                | (lg, Inr firstMedia) \<Rightarrow>
                    if isVideo firstMedia then
                      (if truthyStr (mimeType firstMedia) \<and> mediaBuffer firstMedia \<noteq> None
                          \<and> validateVideo (the (mediaBuffer firstMedia))
                       then (lg, Inr \<lparr>postDate = pDate, postText = pText,
                                      embeddedMedia = Video (VideoEmbedImpl (mediaText firstMedia)
                                        (the (mediaBuffer firstMedia)) (the (mimeType firstMedia))),
                                      mediaCount = 1\<rparr>)
                       else (lg, Inr \<lparr>postDate = pDate, postText = pText,
                                      embeddedMedia = Images [], mediaCount = 0\<rparr>))
                    else
                      (case imageLoop env archiveFolder media 0 [] 0 of
                         (lg2, Inl e) \<Rightarrow> (lg @ lg2, Inl e)
                       | (lg2, Inr (imgs, cnt)) \<Rightarrow>
                           (lg @ lg2, Inr \<lparr>postDate = pDate, postText = pText,
                                           embeddedMedia = Images imgs, mediaCount = cnt\<rparr>))))"

section \<open>index.ts\<close>

definition API_RATE_LIMIT_DELAY :: nat where
  "API_RATE_LIMIT_DELAY = 3000"

text \<open>
  The data that \<open>prepareVideoUpload\<close> of video.ts returns is opaque (\<open>'v\<close>), except
  for its property \<open>ref\<close>, which \<open>processVideoPost\<close> assigns.
\<close>

record 'v video_data =
  vd_ref :: "string option"
  vd_rest :: 'v

text \<open>
  The value that reaches \<open>createPost\<close> is the embed of \<open>processPost\<close> or whatever
  \<open>createVideoEmbed\<close> of video.ts built (\<open>'e\<close>).
\<close>

datatype 'e any_embed = FromProcessPost embedded | FromVideoModule 'e

text \<open>
  The destination client and the video module are external. \<open>login\<close> returns the
  error it throws, if any; \<open>uploadVideo\<close> returns \<open>blob?.ref?.$link\<close>;
  \<open>createPost\<close> returns the URL or \<open>null\<close>.
\<close>

record ('v, 'e) client_env =
  login :: "js_error option"
  uploadVideo :: "buffer \<Rightarrow> js_error + string option"
  createPost :: "js_date \<Rightarrow> string option \<Rightarrow> 'e any_embed \<Rightarrow> js_error + string option"
  prepareVideoUpload :: "string option \<Rightarrow> buffer \<Rightarrow> js_error + 'v video_data"
  createVideoEmbed :: "'v video_data \<Rightarrow> js_error + 'e"

record run_config =
  SIMULATE :: bool
  TEST_VIDEO_MODE :: bool
  TEST_IMAGE_MODE :: bool
  MIN_DATE :: "js_date option"
  MAX_DATE :: "js_date option"
  ARCHIVE_FOLDER :: string

datatype 'e run_event =
    Media event
  | InfoImportStarted
  | InfoLiveMode
  | LoginCall
  | WarnSimulateMode
  | InfoTestMode
  | WarnNoDate
  | WarnBeforeMinDate js_date
  | WarnAfterMaxDate js_date
  | DebugProcessingPostMedia "string option" nat
  | DebugProcessingVideo nat "string option"
  | UploadVideoCall buffer
  | ErrorProcessVideo js_error
  | DebugVideoComplete
  | ErrorVideoFailed js_error
  | DebugUsingPhoto nat
  | WarnInvalidDate
  | Sleep nat
  | CreatePostCall js_date "string option" "'e any_embed"
  | InfoPostCreated string
  | ErrorCreatePost js_error
  | DebugInstagramPost
  | InfoEstimatedTime nat
  | InfoImportFinished nat nat

record 'e run_state =
  importedPosts :: nat
  importedMedia :: nat
  trace :: "'e run_event list"

definition logEvents :: "'e run_state \<Rightarrow> 'e run_event list \<Rightarrow> 'e run_state" where
  "logEvents st evs = st\<lparr>trace := trace st @ evs\<rparr>"

text \<open>How one pass through the body of the loop over the posts ends.\<close>

datatype loop_ctl = Next | Stop | Abort js_error

definition getArchiveFolder :: "run_config \<Rightarrow> string" where
  "getArchiveFolder cfg =
    (if TEST_VIDEO_MODE cfg then ''./transfer/test_videos''
     else if TEST_IMAGE_MODE cfg then ''./transfer/test_images''
     else ARCHIVE_FOLDER cfg)"

text \<open>
  \<open>processVideoPost\<close> (index.ts 39-76): every exception is logged and thrown again.
\<close>

definition processVideoPost ::
  "run_config \<Rightarrow> ('v, 'e) client_env \<Rightarrow> string option \<Rightarrow> buffer option
     \<Rightarrow> 'e run_event list \<times> (js_error + 'e)" where
  "processVideoPost cfg cl filePath buf =
    (case buf of
       None \<Rightarrow> ([ErrorProcessVideo (Thrown ''Video buffer is undefined'')],
                 Inl (Thrown ''Video buffer is undefined''))
     | Some b \<Rightarrow>
         (let lg0 = [DebugProcessingVideo (length b) filePath] in
          case prepareVideoUpload cl filePath b of
            Inl e \<Rightarrow> (lg0 @ [ErrorProcessVideo e], Inl e)
          | Inr videoData \<Rightarrow>
              (case (if \<not> SIMULATE cfg
                     then (case uploadVideo cl b of
                             Inl e \<Rightarrow> ([UploadVideoCall b], Inl e)
                           | Inr link \<Rightarrow>
                               if \<not> truthyStr link
                               then ([UploadVideoCall b],
                                     Inl (Thrown ''Failed to get video upload reference''))
                               else ([UploadVideoCall b], Inr (videoData\<lparr>vd_ref := link\<rparr>)))
                     else ([], Inr videoData)) of
                 (lg1, Inl e) \<Rightarrow> (lg0 @ lg1 @ [ErrorProcessVideo e], Inl e)
               | (lg1, Inr vd) \<Rightarrow>
                   (case createVideoEmbed cl vd of
                      Inl e \<Rightarrow> (lg0 @ lg1 @ [ErrorProcessVideo e], Inl e)
                    | Inr videoEmbed \<Rightarrow> (lg0 @ lg1, Inr videoEmbed)))))"

text \<open>
  The check-date of the loop (index.ts 142-149). Reading \<open>post.media[0].creation_timestamp\<close>
  of a post without media throws a TypeError.
\<close>

definition checkDateOf :: "archive_post \<Rightarrow> js_error + js_date option" where
  "checkDateOf post =
    (if truthyNum (p_creation_timestamp post)
     then Inr (Some (newDate (p_creation_timestamp post)))
     else case p_media post of
            [] \<Rightarrow> Inl TypeError
          | first # _ \<Rightarrow>
              if truthyNum (m_creation_timestamp first)
              then Inr (Some (newDate (m_creation_timestamp first)))
              else Inr None)"

text \<open>
  The submission of index.ts 224-249: in live mode the delay, then \<open>createPost\<close>
  inside a \<open>try\<close> whose \<open>catch\<close> only logs; in simulate mode the post is counted.
\<close>

definition submitPost ::
  "run_config \<Rightarrow> ('v, 'e) client_env \<Rightarrow> js_date \<Rightarrow> string option \<Rightarrow> 'e any_embed
     \<Rightarrow> 'e run_state \<Rightarrow> 'e run_state" where
  "submitPost cfg cl pDate pText emb st =
    (if \<not> SIMULATE cfg
     then (let st1 = logEvents st [Sleep API_RATE_LIMIT_DELAY, CreatePostCall pDate pText emb] in
           case createPost cl pDate pText emb of
             Inr postUrl \<Rightarrow>
               if truthyStr postUrl
               then (logEvents st1 [InfoPostCreated (the postUrl)])
                      \<lparr>importedPosts := importedPosts st1 + 1\<rparr>
               else st1
           | Inl e \<Rightarrow> logEvents st1 [ErrorCreatePost e])
     else st\<lparr>importedPosts := importedPosts st + 1\<rparr>)"

text \<open>
  One pass through the body of the loop (index.ts 141-262). The debug statement of
  line 184 reads \<open>post.media[0].type\<close>, a TypeError for a post without media; the one
  of line 251 calls \<open>postDate.toISOString()\<close> and then reads \<open>postText.length\<close>.
  None of these, and nothing that \<open>processPost\<close> throws, is caught.
\<close>

definition postStep ::
  "run_config \<Rightarrow> fs_env \<Rightarrow> ('v, 'e) client_env \<Rightarrow> archive_post \<Rightarrow> 'e run_state
     \<Rightarrow> loop_ctl \<times> 'e run_state" where
  "postStep cfg fs cl post st =
    (case checkDateOf post of
       Inl e \<Rightarrow> (Abort e, st)
     | Inr None \<Rightarrow> (Next, logEvents st [WarnNoDate])
     | Inr (Some checkDate) \<Rightarrow>
         if (case MIN_DATE cfg of None \<Rightarrow> False | Some mn \<Rightarrow> dateLess checkDate mn)
         then (Next, logEvents st [WarnBeforeMinDate checkDate])
         else if (case MAX_DATE cfg of None \<Rightarrow> False | Some mx \<Rightarrow> dateGreater checkDate mx)
         then (Stop, logEvents st [WarnAfterMaxDate checkDate])
         else
           (case processPost fs post (getArchiveFolder cfg) of
              (lg, Inl e) \<Rightarrow> (Abort e, logEvents st (map Media lg))
            | (lg, Inr pp) \<Rightarrow>
                (let st1 = logEvents st (map Media lg) in
                 case p_media post of
                   [] \<Rightarrow> (Abort TypeError, st1)
                 | first # _ \<Rightarrow>
                     (let st2 = logEvents st1 [DebugProcessingPostMedia (m_type first) (mediaCount pp)] in
                      case (if m_type first = Some ''Video''
                            then (case processVideoPost cfg cl (m_media_url first) (m_buffer first) of
                                    (lgv, Inl e) \<Rightarrow> (lgv @ [ErrorVideoFailed e], None)
                                  | (lgv, Inr videoEmbed) \<Rightarrow>
                                      (lgv @ [DebugVideoComplete], Some (FromVideoModule videoEmbed)))
                            else ([DebugUsingPhoto (case embeddedMedia pp of
                                                      Images imgs \<Rightarrow> length imgs | Video v \<Rightarrow> 0)],
                                  Some (FromProcessPost (embeddedMedia pp)))) of
                        (lg3, None) \<Rightarrow> (Next, logEvents st2 lg3)
                      | (lg3, Some emb) \<Rightarrow>
                          (let st3 = logEvents st2 lg3 in
                           case postDate pp of
                             None \<Rightarrow> (Next, logEvents st3 [WarnInvalidDate])
                           | Some pDate \<Rightarrow>
                               (let st4 = submitPost cfg cl pDate (postText pp) emb st3 in
                                case toISOString pDate of
                                  Inl e \<Rightarrow> (Abort e, st4)
                                | Inr created \<Rightarrow>
                                    (case postText pp of
                                       None \<Rightarrow> (Abort TypeError, st4)
                                     | Some t \<Rightarrow>
                                         (Next, (logEvents st4 [DebugInstagramPost])
                                                  \<lparr>importedMedia := importedMedia st4 + mediaCount pp\<rparr>))))))))"

text \<open>
  The loop over the sorted posts: \<open>continue\<close> goes on with the next post, \<open>break\<close>
  leaves the loop, an uncaught exception leaves \<open>main\<close>. The result is the error that
  ended the run, if any, and the state reached.
\<close>

fun runPosts ::
  "run_config \<Rightarrow> fs_env \<Rightarrow> ('v, 'e) client_env \<Rightarrow> archive_post list \<Rightarrow> 'e run_state
     \<Rightarrow> js_error option \<times> 'e run_state" where
  "runPosts cfg fs cl [] st = (None, st)"
| "runPosts cfg fs cl (post # rest) st =
    (case postStep cfg fs cl post st of
       (Next, st') \<Rightarrow> runPosts cfg fs cl rest st'
     | (Stop, st') \<Rightarrow> (None, st')
     | (Abort e, st') \<Rightarrow> (Some e, st'))"

text \<open>
  The comparator of the sort (index.ts 135-139): the difference of the time values of
  the first media items. It throws a TypeError on a post without media, and a NaN
  difference counts as 0.
\<close>

definition comparePosts :: "archive_post \<Rightarrow> archive_post \<Rightarrow> js_error + int" where
  "comparePosts a b =
    (case p_media a of
       [] \<Rightarrow> Inl TypeError
     | ma # _ \<Rightarrow>
         (case p_media b of
            [] \<Rightarrow> Inl TypeError
          | mb # _ \<Rightarrow>
              (case newDate (m_creation_timestamp ma) of
                 InvalidDate \<Rightarrow> Inr 0
               | DateMs ad \<Rightarrow>
                   (case newDate (m_creation_timestamp mb) of
                      InvalidDate \<Rightarrow> Inr 0
                    | DateMs bd \<Rightarrow> Inr (ad - bd)))))"

text \<open>
  \<open>Array.prototype.sort\<close> of the engine that runs the program (Node). An array of
  fewer than two elements is returned without a call of the comparator. Otherwise the
  engine finds the run at the start of the array: it compares the second element with
  the first, the run is descending when the result is negative, and the run goes on
  while each next element compared with its predecessor keeps that direction; a
  descending run is reversed. The remaining elements are then inserted one by one by
  binary search. This is the whole algorithm for arrays of fewer than 64 elements.
  Longer arrays are cut into several such runs that are merged; the result is the same
  stable order whenever the comparator is consistent, and is not modelled for a longer
  array whose keys include NaN.
\<close>

fun extendRun ::
  "bool \<Rightarrow> archive_post \<Rightarrow> archive_post list
     \<Rightarrow> js_error + archive_post list \<times> archive_post list" where
  "extendRun isDescending previous [] = Inr ([], [])"
| "extendRun isDescending previous (current # rest) =
    (case comparePosts current previous of
       Inl e \<Rightarrow> Inl e
     | Inr order \<Rightarrow>
         if (if isDescending then order \<ge> 0 else order < 0) then Inr ([], current # rest)
         else (case extendRun isDescending current rest of
                 Inl e \<Rightarrow> Inl e
               | Inr (run, others) \<Rightarrow> Inr (current # run, others)))"

text \<open>The run at the start of the array, made ascending, and the elements after it.\<close>

definition countAndMakeRun ::
  "archive_post list \<Rightarrow> js_error + archive_post list \<times> archive_post list" where
  "countAndMakeRun xs =
    (case xs of
       [] \<Rightarrow> Inr ([], [])
     | elementHigh # xs' \<Rightarrow>
         (case xs' of
            [] \<Rightarrow> Inr ([elementHigh], [])
          | elementLow # rest \<Rightarrow>
              (case comparePosts elementLow elementHigh of
                 Inl e \<Rightarrow> Inl e
               | Inr order \<Rightarrow>
                   (case extendRun (order < 0) elementLow rest of
                      Inl e \<Rightarrow> Inl e
                    | Inr (run, others) \<Rightarrow>
                        Inr (if order < 0 then rev (elementHigh # elementLow # run)
                             else elementHigh # elementLow # run,
                             others)))))"

text \<open>
  The binary search of the insertion: the index in the sorted part, between \<open>left\<close>
  and \<open>right\<close>, where the pivot goes. \<open>mid\<close> is below \<open>right\<close>, which is at most
  the length of the sorted part.
\<close>

function binarySearch ::
  "archive_post \<Rightarrow> archive_post list \<Rightarrow> nat \<Rightarrow> nat \<Rightarrow> js_error + nat" where
  "binarySearch pivot sortedPart left right =
    (if left < right
     then (case comparePosts pivot (sortedPart ! (left + (right - left) div 2)) of
             Inl e \<Rightarrow> Inl e
           | Inr order \<Rightarrow>
               if order < 0
               then binarySearch pivot sortedPart left (left + (right - left) div 2)
               else binarySearch pivot sortedPart (left + (right - left) div 2 + 1) right)
     else Inr left)"
  by pat_completeness simp_all
termination
proof (relation "measure (\<lambda>(pivot, sortedPart, left, right). right - left)")
qed auto

fun binaryInsertionSort ::
  "archive_post list \<Rightarrow> archive_post list \<Rightarrow> js_error + archive_post list" where
  "binaryInsertionSort sortedPart [] = Inr sortedPart"
| "binaryInsertionSort sortedPart (pivot # rest) =
    (case binarySearch pivot sortedPart 0 (length sortedPart) of
       Inl e \<Rightarrow> Inl e
     | Inr left \<Rightarrow>
         binaryInsertionSort (take left sortedPart @ pivot # drop left sortedPart) rest)"

definition sortPosts :: "archive_post list \<Rightarrow> js_error + archive_post list" where
  "sortPosts xs =
    (if length xs < 2 then Inr xs
     else case countAndMakeRun xs of
            Inl e \<Rightarrow> Inl e
          | Inr (run, others) \<Rightarrow> binaryInsertionSort run others)"

text \<open>
  \<open>main\<close> (index.ts 78-273), from the parsed posts of the archive on: reading and
  parsing the posts file happens before and is not modelled. A failed login ends the
  run before any post is read.
\<close>

definition main ::
  "run_config \<Rightarrow> fs_env \<Rightarrow> ('v, 'e) client_env \<Rightarrow> archive_post list
     \<Rightarrow> js_error option \<times> 'e run_state" where
  "main cfg fs cl instaPosts =
    (let st0 = \<lparr>importedPosts = 0, importedMedia = 0, trace = [InfoImportStarted]\<rparr> in
     case (if \<not> SIMULATE cfg
           then (case login cl of
                   Some e \<Rightarrow> Inl (e, logEvents st0 [InfoLiveMode, LoginCall])
                 | None \<Rightarrow> Inr (logEvents st0 [InfoLiveMode, LoginCall]))
           else Inr (logEvents st0 [WarnSimulateMode])) of
       Inl (e, st) \<Rightarrow> (Some e, st)
     | Inr st1 \<Rightarrow>
         (let st2 = (if TEST_VIDEO_MODE cfg \<or> TEST_IMAGE_MODE cfg
                     then logEvents st1 [InfoTestMode] else st1)
          in case (if instaPosts \<noteq> []
                   then (case sortPosts instaPosts of
                           Inl e \<Rightarrow> (Some e, st2)
                         | Inr sortedPosts \<Rightarrow> runPosts cfg fs cl sortedPosts st2)
                   else (None, st2)) of
               (Some e, st3) \<Rightarrow> (Some e, st3)
             | (None, st3) \<Rightarrow>
                 (let st4 = (if SIMULATE cfg
                             then logEvents st3 [InfoEstimatedTime (importedMedia st3)] else st3)
                  in (None, logEvents st4 [InfoImportFinished (importedPosts st4) (importedMedia st4)]))))"

section \<open>Predicates and sample inputs used in the statements\<close>

fun isSharpResize :: "event \<Rightarrow> bool" where
  "isSharpResize (SharpResize w h) = True"
| "isSharpResize _ = False"

text \<open>
  An image library that reads dimensions 4000 x 3000 from a buffer of 976,001 bytes
  and none from one of 976,002 bytes, and resizes to 500,000 bytes.
\<close>

definition fsResizing :: fs_env where
  "fsResizing =
    \<lparr>readFileSync = (\<lambda>p. Inl (Thrown ''ENOENT'')),
     sharpMetadata = (\<lambda>b. if length b = 976001 then Inr \<lparr>width = Some 4000, height = Some 3000\<rparr>
                          else if length b = 976002 then Inr \<lparr>width = None, height = None\<rparr>
                          else Inr \<lparr>width = Some 1920, height = Some 1440\<rparr>),
     sharpResize = (\<lambda>b w h. Inr (replicate 500000 0)),
     showNumber = (\<lambda>r. ''0'')\<rparr>"

text \<open>
  An archive folder with six small photos, a small video and a video of 976,001 bytes;
  every other path cannot be read. The image library rejects every buffer, as it does
  for video data.
\<close>

definition fsArchive :: fs_env where
  "fsArchive =
    \<lparr>readFileSync = (\<lambda>p. if p \<in> {''archive/a.jpg'', ''archive/b.jpg'', ''archive/c.jpg'',
                                     ''archive/d.jpg'', ''archive/e.jpg'', ''archive/f.jpg''}
                            then Inr [1, 2, 3]
                            else if p = ''archive/small.mp4'' then Inr [4, 5, 6]
                            else if p = ''archive/clip.mp4'' then Inr (replicate 976001 0)
                            else Inl (Thrown ''ENOENT'')),
     sharpMetadata = (\<lambda>b. Inl (Thrown ''Input buffer contains unsupported image format'')),
     sharpResize = (\<lambda>b w h. Inl (Thrown ''Input buffer contains unsupported image format'')),
     showNumber = (\<lambda>r. ''0'')\<rparr>"

text \<open>A media item of the archive with the given file, timestamp and title.\<close>

definition mediaItem :: "string \<Rightarrow> int option \<Rightarrow> string option \<Rightarrow> archive_media" where
  "mediaItem u t ti =
    \<lparr>m_uri = u, m_creation_timestamp = t, m_title = ti, m_exif_data = [],
     m_type = None, m_media_url = None, m_buffer = None\<rparr>"

text \<open>A photo whose title has 101 characters, and a post that holds it.\<close>

definition mediaLongTitle :: archive_media where
  "mediaLongTitle = mediaItem ''a.jpg'' (Some 1700000000) (Some (replicate 101 (CHR ''x'')))"

definition postLongTitle :: archive_post where
  "postLongTitle =
    \<lparr>p_creation_timestamp = Some 1700000000, p_title = Some ''holiday'',
     p_media = [mediaLongTitle]\<rparr>"

fun isCreatePostCall :: "'e run_event \<Rightarrow> bool" where
  "isCreatePostCall (CreatePostCall d t emb) = True"
| "isCreatePostCall _ = False"

text \<open>Run configurations, clients and the state at the start of the loop.\<close>

definition cfgSimulate :: run_config where
  "cfgSimulate =
    \<lparr>SIMULATE = True, TEST_VIDEO_MODE = False, TEST_IMAGE_MODE = False,
     MIN_DATE = None, MAX_DATE = None, ARCHIVE_FOLDER = ''archive''\<rparr>"

definition cfgLive :: run_config where
  "cfgLive =
    \<lparr>SIMULATE = False, TEST_VIDEO_MODE = False, TEST_IMAGE_MODE = False,
     MIN_DATE = None, MAX_DATE = None, ARCHIVE_FOLDER = ''archive''\<rparr>"

definition clientOk :: "(unit, unit) client_env" where
  "clientOk =
    \<lparr>login = None,
     uploadVideo = (\<lambda>b. Inr (Some ''bafyref'')),
     createPost = (\<lambda>d t emb. Inr (Some ''https://bsky.app/post/1'')),
     prepareVideoUpload = (\<lambda>p b. Inr \<lparr>vd_ref = None, vd_rest = ()\<rparr>),
     createVideoEmbed = (\<lambda>vd. Inr ())\<rparr>"

definition clientRejecting :: "(unit, unit) client_env" where
  "clientRejecting =
    \<lparr>login = None,
     uploadVideo = (\<lambda>b. Inr (Some ''bafyref'')),
     createPost = (\<lambda>d t emb. Inl (Thrown ''request failed'')),
     prepareVideoUpload = (\<lambda>p b. Inr \<lparr>vd_ref = None, vd_rest = ()\<rparr>),
     createVideoEmbed = (\<lambda>vd. Inr ())\<rparr>"

definition emptyRun :: "unit run_state" where
  "emptyRun = \<lparr>importedPosts = 0, importedMedia = 0, trace = []\<rparr>"

text \<open>Posts without a timestamp of their own, or with the timestamp 0.\<close>

definition postOneUndated :: archive_post where
  "postOneUndated =
    \<lparr>p_creation_timestamp = None, p_title = Some ''trip'',
     p_media = [mediaItem ''a.jpg'' (Some 1700000000) (Some ''one'')]\<rparr>"

definition postTwoUndated :: archive_post where
  "postTwoUndated =
    \<lparr>p_creation_timestamp = None, p_title = Some ''trip'',
     p_media = [mediaItem ''a.jpg'' (Some 1700000000) (Some ''one''),
                mediaItem ''b.jpg'' (Some 1700000001) (Some ''two'')]\<rparr>"

definition postNoDates :: archive_post where
  "postNoDates =
    \<lparr>p_creation_timestamp = None, p_title = Some ''trip'',
     p_media = [mediaItem ''a.jpg'' None (Some ''one'')]\<rparr>"

definition postEpoch :: archive_post where
  "postEpoch =
    \<lparr>p_creation_timestamp = Some 0, p_title = Some ''epoch'',
     p_media = [mediaItem ''a.jpg'' (Some 0) (Some ''one'')]\<rparr>"

definition postEpochTwo :: archive_post where
  "postEpochTwo =
    \<lparr>p_creation_timestamp = Some 0, p_title = Some ''epoch'',
     p_media = [mediaItem ''a.jpg'' (Some 1700000000) (Some ''one''),
                mediaItem ''b.jpg'' (Some 1700000001) (Some ''two'')]\<rparr>"

text \<open>
  A media item qualifies as an image when its file can be read, its extension is in the
  image table and its bytes are within the image upload limit. \<open>expectedImage\<close> is the
  embed entry built from such an item.
\<close>

definition qualifying :: "fs_env \<Rightarrow> string \<Rightarrow> archive_media \<Rightarrow> bool" where
  "qualifying env folder m =
    (case readFileSync env (folder @ ''/'' @ m_uri m) of
       Inl e \<Rightarrow> False
     | Inr b \<Rightarrow> length b \<le> 976000 \<and> getImageMimeType (fileExtension (m_uri m)) \<noteq> [])"

definition expectedImage :: "fs_env \<Rightarrow> string \<Rightarrow> archive_media \<Rightarrow> image_embed" where
  "expectedImage env folder m =
    ImageEmbedImpl (truncatedMediaText (derivedMediaText env m))
      (projr (readFileSync env (folder @ ''/'' @ m_uri m)))
      (getImageMimeType (fileExtension (m_uri m)))"

text \<open>Posts with a video first, and posts with more than four media items.\<close>

definition postLargeVideo :: archive_post where
  "postLargeVideo =
    \<lparr>p_creation_timestamp = Some 1700000000, p_title = Some ''clip'',
     p_media = [mediaItem ''clip.mp4'' (Some 1700000000) (Some ''clip'')]\<rparr>"

definition postMissingVideoThenPhoto :: archive_post where
  "postMissingVideoThenPhoto =
    \<lparr>p_creation_timestamp = Some 1700000000, p_title = Some ''mixed'',
     p_media = [mediaItem ''missing.mp4'' (Some 1700000000) (Some ''one''),
                mediaItem ''b.jpg'' (Some 1700000001) (Some ''two'')]\<rparr>"

definition postSixMedia :: archive_post where
  "postSixMedia =
    \<lparr>p_creation_timestamp = Some 1700000000, p_title = Some ''album'',
     p_media = [mediaItem ''a.jpg'' (Some 1700000000) (Some ''one''),
                mediaItem ''missing.jpg'' (Some 1700000001) (Some ''two''),
                mediaItem ''c.jpg'' (Some 1700000002) (Some ''three''),
                mediaItem ''d.jpg'' (Some 1700000003) (Some ''four''),
                mediaItem ''e.jpg'' (Some 1700000004) (Some ''five''),
                mediaItem ''f.jpg'' (Some 1700000005) (Some ''six'')]\<rparr>"

definition postFivePhotos :: archive_post where
  "postFivePhotos =
    \<lparr>p_creation_timestamp = Some 1700000000, p_title = Some ''album'',
     p_media = [mediaItem ''a.jpg'' (Some 1700000000) (Some ''one''),
                mediaItem ''b.jpg'' (Some 1700000001) (Some ''two''),
                mediaItem ''c.jpg'' (Some 1700000002) (Some ''three''),
                mediaItem ''d.jpg'' (Some 1700000003) (Some ''four''),
                mediaItem ''e.jpg'' (Some 1700000004) (Some ''five'')]\<rparr>"


text \<open>A dated post with one photo, a dated post without media, and date bounds.\<close>

definition postAt :: "int \<Rightarrow> archive_post" where
  "postAt t =
    \<lparr>p_creation_timestamp = Some t, p_title = Some ''photo'',
     p_media = [mediaItem ''a.jpg'' (Some t) (Some ''one'')]\<rparr>"

definition postNoMedia :: archive_post where
  "postNoMedia =
    \<lparr>p_creation_timestamp = Some 1700000000, p_title = Some ''hello'', p_media = []\<rparr>"

definition cfgBounded :: run_config where
  "cfgBounded =
    \<lparr>SIMULATE = True, TEST_VIDEO_MODE = False, TEST_IMAGE_MODE = False,
     MIN_DATE = Some (DateMs 1650000000000), MAX_DATE = Some (DateMs 1750000000000),
     ARCHIVE_FOLDER = ''archive''\<rparr>"

definition cfgInverted :: run_config where
  "cfgInverted =
    \<lparr>SIMULATE = True, TEST_VIDEO_MODE = False, TEST_IMAGE_MODE = False,
     MIN_DATE = Some (DateMs 2000000000000), MAX_DATE = Some (DateMs 1600000000000),
     ARCHIVE_FOLDER = ''archive''\<rparr>"

section \<open>The image constraint enforcer\<close>

lemma pib_small: "length b \<le> 976000 \<Longrightarrow> processImageBuffer env b f = ([], Some b)"
  by (simp add: processImageBuffer_def API_LIMIT_IMAGE_UPLOAD_SIZE_def)

lemma pib_some_bound:
  "snd (processImageBuffer env b f) = Some r \<Longrightarrow> length b > 976000 \<Longrightarrow> length r \<le> 976000"
  by (simp add: processImageBuffer_def API_LIMIT_IMAGE_UPLOAD_SIZE_def Let_def
           split: sum.splits if_splits)

lemma pib_meta_throws:
  "length b > 976000 \<Longrightarrow> sharpMetadata env b = Inl e \<Longrightarrow> snd (processImageBuffer env b f) = None"
  by (simp add: processImageBuffer_def API_LIMIT_IMAGE_UPLOAD_SIZE_def)

lemma pib_no_dims:
  "length b > 976000 \<Longrightarrow> sharpMetadata env b = Inr m \<Longrightarrow>
   \<not> truthyNat (width m) \<or> \<not> truthyNat (height m) \<Longrightarrow>
   snd (processImageBuffer env b f) = None"
  by (simp add: processImageBuffer_def API_LIMIT_IMAGE_UPLOAD_SIZE_def)

lemma pib_one_resize:
  "length (filter isSharpResize (fst (processImageBuffer env b f))) \<le> 1"
proof (cases "length b \<le> API_LIMIT_IMAGE_UPLOAD_SIZE")
  case True
  then show ?thesis by (simp add: processImageBuffer_def)
next
  case big: False
  show ?thesis
  proof (cases "sharpMetadata env b")
    case (Inl e)
    with big show ?thesis by (simp add: processImageBuffer_def)
  next
    case meta: (Inr m)
    show ?thesis
    proof (cases "\<not> truthyNat (width m) \<or> \<not> truthyNat (height m)")
      case True
      with big meta show ?thesis by (simp add: processImageBuffer_def)
    next
      case dims: False
      define w where "w = (if \<not> truthyNat (if the (width m) > the (height m) then Some IMAGE_LENGTH_LIMIT else None)
             \<and> \<not> truthyNat (if the (height m) > the (width m) then Some IMAGE_LENGTH_LIMIT else None)
          then Some IMAGE_LENGTH_LIMIT
          else (if the (width m) > the (height m) then Some IMAGE_LENGTH_LIMIT else None))"
      define h where "h = (if the (height m) > the (width m) then Some IMAGE_LENGTH_LIMIT else None)"
      show ?thesis
      proof (cases "sharpResize env b w h")
        case (Inl e)
        with big meta dims show ?thesis
          by (simp add: processImageBuffer_def Let_def w_def h_def)
      next
        case rs: (Inr r)
        show ?thesis
        proof (cases "sharpMetadata env r")
          case (Inl e)
          with big meta dims rs show ?thesis
            by (simp add: processImageBuffer_def Let_def w_def h_def)
        next
          case (Inr m2)
          with big meta dims rs show ?thesis
            by (simp add: processImageBuffer_def Let_def w_def h_def)
        qed
      qed
    qed
  qed
qed


text \<open>
  C8: \<open>processImageBuffer\<close> returns a buffer of at most 976,000 bytes unchanged; for a
  larger one it returns \<open>null\<close> or a buffer of at most 976,000 bytes, and \<open>null\<close> when
  the metadata cannot be read or lacks a width or a height; it calls the resize of the
  image library at most once.
\<close>

theorem processImageBuffer_never_over_limit:
  "(length b \<le> 976000 \<longrightarrow> processImageBuffer env b f = ([], Some b)) \<and>
   (length b > 976000 \<longrightarrow>
      (snd (processImageBuffer env b f) = None \<or>
       (\<exists>r. snd (processImageBuffer env b f) = Some r \<and> length r \<le> 976000))) \<and>
   (length b > 976000 \<and>
      (case sharpMetadata env b of
         Inl e \<Rightarrow> True
       | Inr m \<Rightarrow> \<not> truthyNat (width m) \<or> \<not> truthyNat (height m)) \<longrightarrow>
      snd (processImageBuffer env b f) = None) \<and>
   length (filter isSharpResize (fst (processImageBuffer env b f))) \<le> 1"
proof (intro conjI impI)
  assume "length b \<le> 976000"
  then show "processImageBuffer env b f = ([], Some b)" by (rule pib_small)
next
  assume big: "976000 < length b"
  show "snd (processImageBuffer env b f) = None \<or>
        (\<exists>r. snd (processImageBuffer env b f) = Some r \<and> length r \<le> 976000)"
  proof (cases "snd (processImageBuffer env b f)")
    case None
    then show ?thesis by simp
  next
    case (Some r)
    with big have "length r \<le> 976000" by (simp add: pib_some_bound)
    with Some show ?thesis by simp
  qed
next
  assume h: "976000 < length b \<and>
      (case sharpMetadata env b of Inl e \<Rightarrow> True
       | Inr m \<Rightarrow> \<not> truthyNat (width m) \<or> \<not> truthyNat (height m))"
  show "snd (processImageBuffer env b f) = None"
  proof (cases "sharpMetadata env b")
    case (Inl e)
    with h show ?thesis by (simp add: pib_meta_throws)
  next
    case (Inr m)
    with h have "\<not> truthyNat (width m) \<or> \<not> truthyNat (height m)" by simp
    with h Inr show ?thesis by (simp add: pib_no_dims)
  qed
next
  show "length (filter isSharpResize (fst (processImageBuffer env b f))) \<le> 1"
    by (rule pib_one_resize)
qed

theorem processImageBuffer_never_over_limit_witness:
  "processImageBuffer fsResizing [1, 2, 3] ''a.jpg'' = ([], Some [1, 2, 3]) \<and>
   snd (processImageBuffer fsResizing (replicate 976001 0) ''a.jpg'') = Some (replicate 500000 0) \<and>
   snd (processImageBuffer fsResizing (replicate 976002 0) ''a.jpg'') = None"
  using processImageBuffer_never_over_limit [of "[1, 2, 3]" fsResizing "''a.jpg''"]
        processImageBuffer_never_over_limit [of "replicate 976001 0" fsResizing "''a.jpg''"]
        processImageBuffer_never_over_limit [of "replicate 976002 0" fsResizing "''a.jpg''"]
  by (simp add: fsResizing_def processImageBuffer_def API_LIMIT_IMAGE_UPLOAD_SIZE_def
        IMAGE_LENGTH_LIMIT_def truthyNat_def Let_def)

section \<open>Captions\<close>

text \<open>
  What the truncation of media.ts 89-90 does to every text, and which caption
  \<open>processMedia\<close> stores: the truncated derived text when it returns bytes, the empty
  string when the read failed or the resize was rejected.
\<close>

lemma truncated_long:
  "length t > 100 \<Longrightarrow>
   truncatedMediaText t = take 100 t @ ''...'' \<and> length (truncatedMediaText t) = 103"
  by (simp add: truncatedMediaText_def)

lemma truncated_short: "length t \<le> 100 \<Longrightarrow> truncatedMediaText t = t"
  by (simp add: truncatedMediaText_def)

lemma processMedia_caption:
  "processMedia env media folder = (lg, Inr r) \<Longrightarrow>
   mediaText r = (if mediaBuffer r = None then []
                  else truncatedMediaText (derivedMediaText env media))"
  by (auto simp: processMedia_def Let_def nullMediaResult_def
           split: prod.splits sum.splits option.splits)

text \<open>
  C6: the code at a readable photo whose title has 101 characters, alone in its post.
  \<open>processMedia\<close> keeps the first 100 characters and then appends the three
  characters of the ellipsis marker: the caption it stores, and the caption of the image
  in the embed of \<open>processPost\<close>, has 103 characters, not at most 100. The truncation
  of the post text (media.ts 115-121) takes the length of the marker off the limit
  first; the one of the caption does not.
\<close>

theorem caption_of_101_characters_has_103:
  "length (derivedMediaText fsArchive mediaLongTitle) = 101 \<and>
   snd (processMedia fsArchive mediaLongTitle ''archive'') =
     Inr \<lparr>mediaText = replicate 100 (CHR ''x'') @ ''...'', mimeType = Some ''image/jpeg'',
          mediaBuffer = Some [1, 2, 3], isVideo = False\<rparr> \<and>
   snd (processPost fsArchive postLongTitle ''archive'') =
     Inr \<lparr>postDate = Some (DateMs 1700000000000), postText = Some ''holiday'',
          embeddedMedia =
            Images [ImageEmbedImpl (replicate 100 (CHR ''x'') @ ''...'') [1, 2, 3] ''image/jpeg''],
          mediaCount = 1\<rparr> \<and>
   length (replicate 100 (CHR ''x'') @ ''...'') = 103"
  by (simp add: toLowerCase_def toLowerChar_def getMimeType_def getImageMimeType_def
        getVideoMimeType_def fileExtension_def isVideoMimeType_def isImageTooLarge_def
        API_LIMIT_IMAGE_UPLOAD_SIZE_def processImageBuffer_def processMedia_def
        processPost_def newDate_def truthyNum_def truthyStr_def truthyNat_def
        toISOString_def nullMediaResult_def truncatedMediaText_def derivedMediaText_def
        POST_TEXT_LIMIT_def POST_TEXT_TRUNCATE_SUFFIX_def MAX_IMAGES_PER_POST_def
        validateVideo_def MAX_VIDEO_SIZE_def Let_def fsArchive_def mediaItem_def
        mediaLongTitle_def postLongTitle_def)

section \<open>Publish date\<close>

lemma processPost_zero_ts:
  "processPost env (post\<lparr>p_creation_timestamp := Some 0\<rparr>) folder
     = processPost env (post\<lparr>p_creation_timestamp := None\<rparr>) folder"
  by (simp add: processPost_def truthyNum_def Let_def)

lemma checkDateOf_zero_ts:
  "checkDateOf (post\<lparr>p_creation_timestamp := Some 0\<rparr>)
     = checkDateOf (post\<lparr>p_creation_timestamp := None\<rparr>)"
  by (simp add: checkDateOf_def truthyNum_def)

lemma checkDateOf_undated:
  "\<not> truthyNum (p_creation_timestamp post) \<Longrightarrow> p_media post = first # others \<Longrightarrow>
   \<not> truthyNum (m_creation_timestamp first) \<Longrightarrow> checkDateOf post = Inr None"
  by (simp add: checkDateOf_def)

lemma postStep_undated:
  "checkDateOf post = Inr None \<Longrightarrow> postStep cfg fs cl post st = (Next, logEvents st [WarnNoDate])"
  by (simp add: postStep_def)

lemma processPost_date_several:
  "\<not> truthyNum (p_creation_timestamp post) \<Longrightarrow> length (p_media post) \<noteq> 1 \<Longrightarrow>
   processPost env post folder = (lg, Inr pp) \<Longrightarrow> postDate pp = None"
  by (auto simp: processPost_def Let_def split: list.splits prod.splits sum.splits if_splits)

lemma processMedia_returns:
  "newDate (m_creation_timestamp m) = DateMs x \<Longrightarrow>
   \<exists>lg r. processMedia env m folder = (lg, Inr r)"
  by (auto simp: processMedia_def Let_def toISOString_def split: prod.splits sum.splits option.splits)

lemma processPost_date_single:
  assumes "\<not> truthyNum (p_creation_timestamp post)" and "p_media post = [m]"
    and "processPost env post folder = (lg, Inr pp)"
  shows "postDate pp = Some (newDate (m_creation_timestamp m))"
  using assms
  by (auto simp: processPost_def Let_def split: prod.splits sum.splits if_splits)

lemma processPost_single_returns:
  assumes m: "p_media post = [m]" and d: "newDate (m_creation_timestamp m) = DateMs x"
  shows "\<exists>lg pp. processPost env post folder = (lg, Inr pp)"
proof -
  from processMedia_returns [OF d] obtain lg1 r where pm: "processMedia env m folder = (lg1, Inr r)"
    by blast
  show ?thesis
  proof (cases "isVideo r")
    case True
    with m pm show ?thesis by (simp add: processPost_def Let_def)
  next
    case False
    with m pm show ?thesis by (simp add: processPost_def Let_def MAX_IMAGES_PER_POST_def)
  qed
qed

lemma filter_Media: "filter isCreatePostCall (map Media lg) = []"
  by (induction lg) simp_all

lemma processVideoPost_no_create:
  "filter isCreatePostCall (fst (processVideoPost cfg cl p b)) = []"
  by (auto simp: processVideoPost_def Let_def split: option.splits sum.splits prod.splits if_splits)

lemma postStep_null_date:
  assumes nd: "\<And>lg pp. processPost fs post (getArchiveFolder cfg) = (lg, Inr pp) \<Longrightarrow> postDate pp = None"
    and step: "postStep cfg fs cl post st = (ctl, st')"
  shows "importedPosts st' = importedPosts st \<and> importedMedia st' = importedMedia st \<and>
         filter isCreatePostCall (trace st') = filter isCreatePostCall (trace st)"
proof -
  obtain lg res where pp: "processPost fs post (getArchiveFolder cfg) = (lg, res)"
    by (cases "processPost fs post (getArchiveFolder cfg)")
  obtain lgv resv where pv:
    "processVideoPost cfg cl (m_media_url (hd (p_media post))) (m_buffer (hd (p_media post))) = (lgv, resv)"
    by (cases "processVideoPost cfg cl (m_media_url (hd (p_media post))) (m_buffer (hd (p_media post)))")
  from processVideoPost_no_create [of cfg cl "m_media_url (hd (p_media post))" "m_buffer (hd (p_media post))"] pv
  have nv: "filter isCreatePostCall lgv = []" by simp
  show ?thesis
  proof (cases res)
    case (Inl e)
    with step pp show ?thesis
      by (auto simp: postStep_def logEvents_def filter_Media split: sum.splits option.splits if_splits)
  next
    case (Inr r)
    with nd pp have "postDate r = None" by simp
    with step pp Inr pv nv show ?thesis
      by (auto simp: postStep_def logEvents_def filter_Media Let_def
               split: sum.splits option.splits if_splits list.splits)
  qed
qed

text \<open>
  C3, as stated, fails: a post without a timestamp of its own and with two photos, the
  first of them timestamped, gets a null date from \<open>processPost\<close>.
\<close>

theorem date_fallback_two_media_counterexample:
  "p_creation_timestamp postTwoUndated = None \<and>
   m_creation_timestamp (hd (p_media postTwoUndated)) = Some 1700000000 \<and>
   snd (processPost fsArchive postTwoUndated ''archive'') =
     Inr \<lparr>postDate = None, postText = Some ''trip'',
          embeddedMedia = Images [ImageEmbedImpl ''one'' [1, 2, 3] ''image/jpeg'',
                                  ImageEmbedImpl ''two'' [1, 2, 3] ''image/jpeg''],
          mediaCount = 2\<rparr>"
  by (simp add: toLowerCase_def toLowerChar_def getMimeType_def getImageMimeType_def
        getVideoMimeType_def fileExtension_def isVideoMimeType_def isImageTooLarge_def
        API_LIMIT_IMAGE_UPLOAD_SIZE_def processImageBuffer_def processMedia_def
        processPost_def newDate_def truthyNum_def truthyStr_def truthyNat_def
        toISOString_def nullMediaResult_def truncatedMediaText_def derivedMediaText_def
        POST_TEXT_LIMIT_def POST_TEXT_TRUNCATE_SUFFIX_def MAX_IMAGES_PER_POST_def
        validateVideo_def MAX_VIDEO_SIZE_def Let_def fsArchive_def mediaItem_def
        postTwoUndated_def)

text \<open>
  C3, amended: for a post that lacks its own creation timestamp (absent or 0) and has
  exactly one media item, whose timestamp is a valid date, \<open>processPost\<close> returns and
  resolves the publish date to that timestamp. For a post that lacks its own timestamp
  and has no or several media items, every result of \<open>processPost\<close> has a null date, and
  the orchestrator's pass over the post changes no counter and submits nothing. A post
  that lacks its own timestamp and whose first media item lacks one too is skipped by
  the orchestrator as undated.
\<close>

theorem publish_date_fallback:
  "(\<not> truthyNum (p_creation_timestamp post) \<and> p_media post = [m] \<and>
    m_creation_timestamp m = Some t \<and> \<bar>t * 1000\<bar> \<le> 8640000000000000 \<longrightarrow>
      (\<exists>lg pp. processPost fs post folder = (lg, Inr pp) \<and>
               postDate pp = Some (DateMs (t * 1000)))) \<and>
   (\<not> truthyNum (p_creation_timestamp post) \<and> length (p_media post) \<noteq> 1 \<longrightarrow>
      (\<forall>lg pp. processPost fs post folder = (lg, Inr pp) \<longrightarrow> postDate pp = None) \<and>
      importedPosts (snd (postStep cfg fs cl post st)) = importedPosts st \<and>
      importedMedia (snd (postStep cfg fs cl post st)) = importedMedia st \<and>
      filter isCreatePostCall (trace (snd (postStep cfg fs cl post st)))
        = filter isCreatePostCall (trace st)) \<and>
   (\<not> truthyNum (p_creation_timestamp post) \<and> p_media post = first # others \<and>
    \<not> truthyNum (m_creation_timestamp first) \<longrightarrow>
      postStep cfg fs cl post st = (Next, logEvents st [WarnNoDate]))"
proof (intro conjI impI)
  assume h: "\<not> truthyNum (p_creation_timestamp post) \<and> p_media post = [m] \<and>
    m_creation_timestamp m = Some t \<and> \<bar>t * 1000\<bar> \<le> 8640000000000000"
  then have d: "newDate (m_creation_timestamp m) = DateMs (t * 1000)"
    by (simp add: newDate_def)
  from h have single: "p_media post = [m]" by simp
  from processPost_single_returns [OF single d] obtain lg pp
    where r: "processPost fs post folder = (lg, Inr pp)" by blast
  from h have nt: "\<not> truthyNum (p_creation_timestamp post)" by simp
  from processPost_date_single [OF nt single r]
  have "postDate pp = Some (newDate (m_creation_timestamp m))" .
  with d r show "\<exists>lg pp. processPost fs post folder = (lg, Inr pp) \<and>
                         postDate pp = Some (DateMs (t * 1000))"
    by simp
next
  assume h: "\<not> truthyNum (p_creation_timestamp post) \<and> length (p_media post) \<noteq> 1"
  then show "\<forall>lg pp. processPost fs post folder = (lg, Inr pp) \<longrightarrow> postDate pp = None"
    by (blast intro: processPost_date_several)
next
  assume h: "\<not> truthyNum (p_creation_timestamp post) \<and> length (p_media post) \<noteq> 1"
  then have nd: "\<And>lg pp. processPost fs post (getArchiveFolder cfg) = (lg, Inr pp)
                  \<Longrightarrow> postDate pp = None"
    by (blast intro: processPost_date_several)
  obtain ctl st' where s: "postStep cfg fs cl post st = (ctl, st')"
    by (cases "postStep cfg fs cl post st")
  note u = postStep_null_date [OF nd s]
  from u s show "importedPosts (snd (postStep cfg fs cl post st)) = importedPosts st" by simp
  from u s show "importedMedia (snd (postStep cfg fs cl post st)) = importedMedia st" by simp
  from u s show "filter isCreatePostCall (trace (snd (postStep cfg fs cl post st)))
        = filter isCreatePostCall (trace st)" by simp
next
  assume "\<not> truthyNum (p_creation_timestamp post) \<and> p_media post = first # others \<and>
    \<not> truthyNum (m_creation_timestamp first)"
  then have "checkDateOf post = Inr None" by (simp add: checkDateOf_undated)
  then show "postStep cfg fs cl post st = (Next, logEvents st [WarnNoDate])"
    by (rule postStep_undated)
qed

theorem publish_date_fallback_witness:
  "(\<exists>lg pp. processPost fsArchive postOneUndated ''archive'' = (lg, Inr pp) \<and>
            postDate pp = Some (DateMs (1700000000 * 1000))) \<and>
   length (p_media postTwoUndated) \<noteq> 1 \<and>
   importedPosts (snd (postStep cfgSimulate fsArchive clientOk postTwoUndated emptyRun)) = 0 \<and>
   importedMedia (snd (postStep cfgSimulate fsArchive clientOk postTwoUndated emptyRun)) = 0 \<and>
   filter isCreatePostCall (trace (snd (postStep cfgSimulate fsArchive clientOk postTwoUndated emptyRun))) = [] \<and>
   postStep cfgSimulate fsArchive clientOk postNoDates emptyRun
     = (Next, logEvents emptyRun [WarnNoDate])"
proof -
  have h1: "\<not> truthyNum (p_creation_timestamp postOneUndated) \<and>
      p_media postOneUndated = [mediaItem ''a.jpg'' (Some 1700000000) (Some ''one'')] \<and>
      m_creation_timestamp (mediaItem ''a.jpg'' (Some 1700000000) (Some ''one'')) = Some 1700000000 \<and>
      \<bar>1700000000 * 1000\<bar> \<le> (8640000000000000 :: int)"
    by (simp add: postOneUndated_def truthyNum_def mediaItem_def)
  have h2: "\<not> truthyNum (p_creation_timestamp postTwoUndated) \<and> length (p_media postTwoUndated) \<noteq> 1"
    by (simp add: postTwoUndated_def truthyNum_def)
  have h3: "\<not> truthyNum (p_creation_timestamp postNoDates) \<and>
      p_media postNoDates = mediaItem ''a.jpg'' None (Some ''one'') # [] \<and>
      \<not> truthyNum (m_creation_timestamp (mediaItem ''a.jpg'' None (Some ''one'')))"
    by (simp add: postNoDates_def truthyNum_def mediaItem_def)
  have e: "importedPosts emptyRun = 0" "importedMedia emptyRun = 0" "trace emptyRun = []"
    by (simp_all add: emptyRun_def)
  note t1 = publish_date_fallback [where post = postOneUndated and fs = fsArchive
          and folder = "''archive''" and m = "mediaItem ''a.jpg'' (Some 1700000000) (Some ''one'')"
          and t = 1700000000, THEN conjunct1, THEN mp, OF h1]
  note t2 = publish_date_fallback [where post = postTwoUndated and fs = fsArchive
          and cfg = cfgSimulate and cl = clientOk and st = emptyRun,
          THEN conjunct2, THEN conjunct1, THEN mp, OF h2]
  note t3 = publish_date_fallback [where post = postNoDates and fs = fsArchive
          and cfg = cfgSimulate and cl = clientOk and st = emptyRun
          and first = "mediaItem ''a.jpg'' None (Some ''one'')" and others = "[]",
          THEN conjunct2, THEN conjunct2, THEN mp, OF h3]
  from t1 t2 t3 h2 e show ?thesis by simp
qed

text \<open>
  C10: a creation timestamp of 0 is falsy. \<open>processPost\<close> and the check-date of the
  orchestrator give the same result for a post timestamp of 0 as for an absent one:
  \<open>processPost\<close> takes the date of the only media item, or gives a null date when the
  post has no or several media items; a post whose own timestamp and whose first media
  item's timestamp are each 0 or absent has no check-date and is skipped with the
  no-date warning.
\<close>

theorem zero_timestamp_is_absent:
  "processPost fs (post\<lparr>p_creation_timestamp := Some 0\<rparr>) folder
     = processPost fs (post\<lparr>p_creation_timestamp := None\<rparr>) folder \<and>
   checkDateOf (post\<lparr>p_creation_timestamp := Some 0\<rparr>)
     = checkDateOf (post\<lparr>p_creation_timestamp := None\<rparr>) \<and>
   (p_creation_timestamp post = Some 0 \<and> length (p_media post) \<noteq> 1 \<longrightarrow>
      (\<forall>lg pp. processPost fs post folder = (lg, Inr pp) \<longrightarrow> postDate pp = None)) \<and>
   (p_creation_timestamp post = Some 0 \<and> p_media post = [m] \<longrightarrow>
      (\<forall>lg pp. processPost fs post folder = (lg, Inr pp) \<longrightarrow>
         postDate pp = Some (newDate (m_creation_timestamp m)))) \<and>
   ((p_creation_timestamp post = Some 0 \<or> p_creation_timestamp post = None) \<and>
    p_media post = first # others \<and>
    (m_creation_timestamp first = Some 0 \<or> m_creation_timestamp first = None) \<longrightarrow>
      checkDateOf post = Inr None \<and>
      postStep cfg fs cl post st = (Next, logEvents st [WarnNoDate]))"
proof (intro conjI impI)
  show "processPost fs (post\<lparr>p_creation_timestamp := Some 0\<rparr>) folder
     = processPost fs (post\<lparr>p_creation_timestamp := None\<rparr>) folder"
    by (rule processPost_zero_ts)
  show "checkDateOf (post\<lparr>p_creation_timestamp := Some 0\<rparr>)
     = checkDateOf (post\<lparr>p_creation_timestamp := None\<rparr>)"
    by (rule checkDateOf_zero_ts)
next
  assume "p_creation_timestamp post = Some 0 \<and> length (p_media post) \<noteq> 1"
  then have "\<not> truthyNum (p_creation_timestamp post)" "length (p_media post) \<noteq> 1"
    by (simp_all add: truthyNum_def)
  then show "\<forall>lg pp. processPost fs post folder = (lg, Inr pp) \<longrightarrow> postDate pp = None"
    by (blast intro: processPost_date_several)
next
  assume "p_creation_timestamp post = Some 0 \<and> p_media post = [m]"
  then have "\<not> truthyNum (p_creation_timestamp post)" "p_media post = [m]"
    by (simp_all add: truthyNum_def)
  then show "\<forall>lg pp. processPost fs post folder = (lg, Inr pp) \<longrightarrow>
         postDate pp = Some (newDate (m_creation_timestamp m))"
    by (simp add: processPost_date_single)
next
  assume h: "(p_creation_timestamp post = Some 0 \<or> p_creation_timestamp post = None) \<and>
    p_media post = first # others \<and>
    (m_creation_timestamp first = Some 0 \<or> m_creation_timestamp first = None)"
  then have a: "\<not> truthyNum (p_creation_timestamp post)"
    and b: "p_media post = first # others"
    and c: "\<not> truthyNum (m_creation_timestamp first)"
    by (auto simp: truthyNum_def)
  from checkDateOf_undated [OF a b c] show cd: "checkDateOf post = Inr None" .
  from postStep_undated [OF cd]
  show "postStep cfg fs cl post st = (Next, logEvents st [WarnNoDate])" .
qed

theorem zero_timestamp_is_absent_witness:
  "processPost fsArchive postEpoch ''archive''
     = processPost fsArchive (postEpoch\<lparr>p_creation_timestamp := None\<rparr>) ''archive'' \<and>
   postDate (projr (snd (processPost fsArchive postEpochTwo ''archive''))) = None \<and>
   postDate (projr (snd (processPost fsArchive postEpoch ''archive''))) = Some (DateMs 0) \<and>
   checkDateOf postEpoch = Inr None \<and>
   postStep cfgSimulate fsArchive clientOk postEpoch emptyRun
     = (Next, logEvents emptyRun [WarnNoDate])"
  using zero_timestamp_is_absent [where post = postEpoch and fs = fsArchive
          and folder = "''archive''" and cfg = cfgSimulate and cl = clientOk and st = emptyRun
          and m = "mediaItem ''a.jpg'' (Some 0) (Some ''one'')"
          and first = "mediaItem ''a.jpg'' (Some 0) (Some ''one'')" and others = "[]"]
        zero_timestamp_is_absent [where post = postEpochTwo and fs = fsArchive
          and folder = "''archive''"]
  by (simp add: toLowerCase_def toLowerChar_def getMimeType_def getImageMimeType_def
        getVideoMimeType_def fileExtension_def isVideoMimeType_def isImageTooLarge_def
        API_LIMIT_IMAGE_UPLOAD_SIZE_def processImageBuffer_def processMedia_def
        processPost_def newDate_def truthyNum_def truthyStr_def truthyNat_def
        toISOString_def nullMediaResult_def truncatedMediaText_def derivedMediaText_def
        POST_TEXT_LIMIT_def POST_TEXT_TRUNCATE_SUFFIX_def MAX_IMAGES_PER_POST_def
        validateVideo_def MAX_VIDEO_SIZE_def Let_def fsArchive_def mediaItem_def
        postStep_def checkDateOf_def submitPost_def processVideoPost_def
        getArchiveFolder_def logEvents_def dateGreater_def API_RATE_LIMIT_DELAY_def
        cfgSimulate_def clientOk_def emptyRun_def postEpoch_def postEpochTwo_def)

section \<open>The image list\<close>

lemma imageLoop_length:
  "imageLoop env folder ms j imgs cnt = (lg, Inr (imgs', cnt')) \<Longrightarrow>
   length imgs' \<le> length imgs + (MAX_IMAGES_PER_POST - j)"
proof (induction ms arbitrary: j imgs cnt lg)
  case Nil
  then show ?case by simp
next
  case (Cons m rest)
  show ?case
  proof (cases "j \<ge> MAX_IMAGES_PER_POST")
    case True
    with Cons.prems show ?thesis by auto
  next
    case small: False
    obtain lg1 res1 where pm: "processMedia env m folder = (lg1, res1)"
      by (cases "processMedia env m folder")
    show ?thesis
    proof (cases res1)
      case (Inl e)
      with Cons.prems small pm show ?thesis by simp
    next
      case (Inr r)
      show ?thesis
      proof (cases "\<not> truthyStr (mimeType r) \<or> mediaBuffer r = None \<or> isVideo r")
        case True
        with Cons.prems small pm Inr obtain lg2 where
          "imageLoop env folder rest (j + 1) imgs cnt = (lg2, Inr (imgs', cnt'))"
          by (auto split: prod.splits)
        from Cons.IH [OF this] show ?thesis by simp
      next
        case False
        with Cons.prems small pm Inr obtain lg2 where
          rec: "imageLoop env folder rest (j + 1)
             (imgs @ [ImageEmbedImpl (mediaText r) (the (mediaBuffer r)) (the (mimeType r))]) (cnt + 1)
             = (lg2, Inr (imgs', cnt'))"
          by (auto split: prod.splits)
        from Cons.IH [OF rec] small show ?thesis by simp
      qed
    qed
  qed
qed

lemma processPost_images_length:
  assumes pp: "processPost env post folder = (lg, Inr pp)"
    and emb: "embeddedMedia pp = Images imgs"
  shows "length imgs \<le> 4"
proof (cases "p_media post")
  case Nil
  with pp emb show ?thesis by (auto simp: processPost_def Let_def)
next
  case (Cons first others)
  obtain lg1 res1 where pm: "processMedia env first folder = (lg1, res1)"
    by (cases "processMedia env first folder")
  show ?thesis
  proof (cases res1)
    case (Inl e)
    with pp Cons pm show ?thesis by (simp add: processPost_def Let_def)
  next
    case (Inr firstMedia)
    show ?thesis
    proof (cases "isVideo firstMedia")
      case True
      with pp Cons pm Inr emb show ?thesis
        by (auto simp: processPost_def Let_def split: if_splits)
    next
      case False
      obtain lg2 res2 where il: "imageLoop env folder (p_media post) 0 [] 0 = (lg2, res2)"
        by (cases "imageLoop env folder (p_media post) 0 [] 0")
      show ?thesis
      proof (cases res2)
        case (Inl e)
        with pp Cons pm Inr False il show ?thesis by (simp add: processPost_def Let_def)
      next
        case inr2: (Inr pr)
        obtain imgs2 cnt where pr: "pr = (imgs2, cnt)" by (cases pr)
        with pp Cons pm Inr False il inr2 have "embeddedMedia pp = Images imgs2"
          by (auto simp: processPost_def Let_def)
        with emb have "imgs2 = imgs" by simp
        with il inr2 pr imageLoop_length [of env folder "p_media post" 0 "[]" 0 lg2 imgs cnt]
        show ?thesis by (simp add: MAX_IMAGES_PER_POST_def)
      qed
    qed
  qed
qed

lemma image_mime_not_video: "\<not> isVideoMimeType (getImageMimeType ext)"
  by (simp add: getImageMimeType_def isVideoMimeType_def Let_def)

lemma getMimeType_image:
  "getImageMimeType ext \<noteq> [] \<Longrightarrow> getMimeType ext = ([], getImageMimeType ext)"
  by (simp add: getMimeType_def Let_def)

lemma processMedia_qualifying:
  assumes q: "qualifying env folder m" and d: "newDate (m_creation_timestamp m) = DateMs x"
  shows "processMedia env m folder =
     ([DebugSourceMedia (getImageMimeType (fileExtension (m_uri m))) (folder @ ''/'' @ m_uri m) False],
      Inr \<lparr>mediaText = truncatedMediaText (derivedMediaText env m),
           mimeType = Some (getImageMimeType (fileExtension (m_uri m))),
           mediaBuffer = Some (projr (readFileSync env (folder @ ''/'' @ m_uri m))),
           isVideo = False\<rparr>)"
proof -
  from q obtain b where rd: "readFileSync env (folder @ ''/'' @ m_uri m) = Inr b"
    and len: "length b \<le> 976000"
    and im: "getImageMimeType (fileExtension (m_uri m)) \<noteq> []"
    by (auto simp: qualifying_def split: sum.splits)
  from rd len im d show ?thesis
    by (simp add: processMedia_def getMimeType_image isImageTooLarge_def
          API_LIMIT_IMAGE_UPLOAD_SIZE_def toISOString_def image_mime_not_video Let_def)
qed

lemma imageLoop_qualifying:
  assumes q: "qualifying env folder m" and d: "newDate (m_creation_timestamp m) = DateMs x"
    and j: "j < 4"
  shows "imageLoop env folder (m # rest) j imgs cnt =
     (case imageLoop env folder rest (j + 1) (imgs @ [expectedImage env folder m]) (cnt + 1) of
        (lg2, res) \<Rightarrow>
          ([DebugSourceMedia (getImageMimeType (fileExtension (m_uri m)))
              (folder @ ''/'' @ m_uri m) False] @ lg2, res))"
proof -
  from q have im: "getImageMimeType (fileExtension (m_uri m)) \<noteq> []"
    by (auto simp: qualifying_def split: sum.splits)
  from j im show ?thesis
    by (simp add: processMedia_qualifying [OF q d] MAX_IMAGES_PER_POST_def truthyStr_def
          expectedImage_def)
qed

lemma imageLoop_cap:
  "4 \<le> j \<Longrightarrow> imageLoop env folder (m # rest) j imgs cnt = ([WarnTooManyImages], Inr (imgs, cnt))"
  by (simp add: MAX_IMAGES_PER_POST_def)

lemma five_or_more:
  "5 \<le> length xs \<Longrightarrow> \<exists>a b c d e r. xs = a # b # c # d # e # r"
  by (auto simp: numeral_eq_Suc Suc_le_length_iff)

lemma processPost_first_four:
  assumes ms: "p_media post = m1 # m2 # m3 # m4 # m5 # rest"
    and q: "\<forall>m \<in> set [m1, m2, m3, m4].
              qualifying env folder m \<and> newDate (m_creation_timestamp m) \<noteq> InvalidDate"
  shows "\<exists>lg pp. processPost env post folder = (lg, Inr pp) \<and>
           embeddedMedia pp = Images (map (expectedImage env folder) [m1, m2, m3, m4]) \<and>
           mediaCount pp = 4 \<and> WarnTooManyImages \<in> set lg"
proof -
  from q obtain x1 x2 x3 x4 where
    d: "newDate (m_creation_timestamp m1) = DateMs x1" "newDate (m_creation_timestamp m2) = DateMs x2"
       "newDate (m_creation_timestamp m3) = DateMs x3" "newDate (m_creation_timestamp m4) = DateMs x4"
    by (cases "newDate (m_creation_timestamp m1)"; cases "newDate (m_creation_timestamp m2)";
        cases "newDate (m_creation_timestamp m3)"; cases "newDate (m_creation_timestamp m4)") auto
  from q have qs: "qualifying env folder m1" "qualifying env folder m2"
    "qualifying env folder m3" "qualifying env folder m4"
    by simp_all
  have loop: "imageLoop env folder (m1 # m2 # m3 # m4 # m5 # rest) 0 [] 0 =
     ([DebugSourceMedia (getImageMimeType (fileExtension (m_uri m1))) (folder @ ''/'' @ m_uri m1) False,
       DebugSourceMedia (getImageMimeType (fileExtension (m_uri m2))) (folder @ ''/'' @ m_uri m2) False,
       DebugSourceMedia (getImageMimeType (fileExtension (m_uri m3))) (folder @ ''/'' @ m_uri m3) False,
       DebugSourceMedia (getImageMimeType (fileExtension (m_uri m4))) (folder @ ''/'' @ m_uri m4) False,
       WarnTooManyImages],
      Inr (map (expectedImage env folder) [m1, m2, m3, m4], 4))"
    by (simp add: imageLoop_qualifying [OF qs(1) d(1)] imageLoop_qualifying [OF qs(2) d(2)]
          imageLoop_qualifying [OF qs(3) d(3)] imageLoop_qualifying [OF qs(4) d(4)]
          imageLoop_cap eval_nat_numeral del: imageLoop.simps)
  show ?thesis
    by (simp add: processPost_def Let_def ms processMedia_qualifying [OF qs(1) d(1)] loop
          del: imageLoop.simps)
qed

text \<open>
  C7, as stated, fails: of six media items, five qualify, but the second cannot be
  read; the loop looks at the first four only and the image list has three entries.
\<close>

theorem five_qualifying_three_embedded_counterexample:
  "length (filter (qualifying fsArchive ''archive'') (p_media postSixMedia)) = 5 \<and>
   snd (processPost fsArchive postSixMedia ''archive'') =
     Inr \<lparr>postDate = Some (DateMs 1700000000000), postText = Some ''album'',
          embeddedMedia = Images [ImageEmbedImpl ''one'' [1, 2, 3] ''image/jpeg'',
                                  ImageEmbedImpl ''three'' [1, 2, 3] ''image/jpeg'',
                                  ImageEmbedImpl ''four'' [1, 2, 3] ''image/jpeg''],
          mediaCount = 3\<rparr>"
  by (simp add: toLowerCase_def toLowerChar_def getMimeType_def getImageMimeType_def
        getVideoMimeType_def fileExtension_def isVideoMimeType_def isImageTooLarge_def
        API_LIMIT_IMAGE_UPLOAD_SIZE_def processImageBuffer_def processMedia_def
        processPost_def newDate_def truthyNum_def truthyStr_def truthyNat_def
        toISOString_def nullMediaResult_def truncatedMediaText_def derivedMediaText_def
        POST_TEXT_LIMIT_def POST_TEXT_TRUNCATE_SUFFIX_def MAX_IMAGES_PER_POST_def
        validateVideo_def MAX_VIDEO_SIZE_def Let_def fsArchive_def mediaItem_def
        postSixMedia_def qualifying_def)

text \<open>
  C7, amended: the image list of \<open>processPost\<close> never has more than 4 entries. For a
  post with at least 5 media items whose first four items qualify (readable,
  image-classified, size-conforming) and have valid timestamps, \<open>processPost\<close> returns
  the image list of exactly these four items, in archive order, with media count 4,
  and logs the cap-exceeded warning.
\<close>

theorem image_list_cap:
  "(\<forall>lg pp imgs. processPost env post folder = (lg, Inr pp) \<and> embeddedMedia pp = Images imgs
       \<longrightarrow> length imgs \<le> 4) \<and>
   (5 \<le> length (p_media post) \<and>
    (\<forall>m \<in> set (take 4 (p_media post)).
        qualifying env folder m \<and> newDate (m_creation_timestamp m) \<noteq> InvalidDate) \<longrightarrow>
      (\<exists>lg pp. processPost env post folder = (lg, Inr pp) \<and>
         embeddedMedia pp = Images (map (expectedImage env folder) (take 4 (p_media post))) \<and>
         mediaCount pp = 4 \<and> WarnTooManyImages \<in> set lg))"
proof (intro conjI impI allI)
  fix lg pp imgs
  assume "processPost env post folder = (lg, Inr pp) \<and> embeddedMedia pp = Images imgs"
  then show "length imgs \<le> 4" by (blast intro: processPost_images_length)
next
  assume h: "5 \<le> length (p_media post) \<and>
    (\<forall>m \<in> set (take 4 (p_media post)).
        qualifying env folder m \<and> newDate (m_creation_timestamp m) \<noteq> InvalidDate)"
  then obtain m1 m2 m3 m4 m5 rest where ms: "p_media post = m1 # m2 # m3 # m4 # m5 # rest"
    using five_or_more [of "p_media post"] by blast
  with h have q: "\<forall>m \<in> set [m1, m2, m3, m4].
              qualifying env folder m \<and> newDate (m_creation_timestamp m) \<noteq> InvalidDate"
    by simp
  from processPost_first_four [OF ms q] ms
  show "\<exists>lg pp. processPost env post folder = (lg, Inr pp) \<and>
         embeddedMedia pp = Images (map (expectedImage env folder) (take 4 (p_media post))) \<and>
         mediaCount pp = 4 \<and> WarnTooManyImages \<in> set lg"
    by simp
qed

theorem image_list_cap_witness:
  "5 \<le> length (p_media postFivePhotos) \<and>
   (\<exists>lg pp. processPost fsArchive postFivePhotos ''archive'' = (lg, Inr pp) \<and>
      embeddedMedia pp = Images [ImageEmbedImpl ''one'' [1, 2, 3] ''image/jpeg'',
                                 ImageEmbedImpl ''two'' [1, 2, 3] ''image/jpeg'',
                                 ImageEmbedImpl ''three'' [1, 2, 3] ''image/jpeg'',
                                 ImageEmbedImpl ''four'' [1, 2, 3] ''image/jpeg''] \<and>
      mediaCount pp = 4 \<and> WarnTooManyImages \<in> set lg) \<and>
   length [ImageEmbedImpl ''one'' [1, 2, 3] ''image/jpeg'',
           ImageEmbedImpl ''three'' [1, 2, 3] ''image/jpeg'',
           ImageEmbedImpl ''four'' [1, 2, 3] ''image/jpeg''] \<le> 4"
proof -
  have h: "5 \<le> length (p_media postFivePhotos) \<and>
    (\<forall>m \<in> set (take 4 (p_media postFivePhotos)).
        qualifying fsArchive ''archive'' m \<and> newDate (m_creation_timestamp m) \<noteq> InvalidDate)"
    by (simp add: postFivePhotos_def qualifying_def toLowerCase_def toLowerChar_def
          getMimeType_def getImageMimeType_def getVideoMimeType_def fileExtension_def
          isVideoMimeType_def isImageTooLarge_def API_LIMIT_IMAGE_UPLOAD_SIZE_def
          processImageBuffer_def processMedia_def processPost_def newDate_def truthyNum_def
          truthyStr_def truthyNat_def toISOString_def nullMediaResult_def
          truncatedMediaText_def derivedMediaText_def POST_TEXT_LIMIT_def
          POST_TEXT_TRUNCATE_SUFFIX_def MAX_IMAGES_PER_POST_def validateVideo_def
          MAX_VIDEO_SIZE_def Let_def fsArchive_def mediaItem_def)
  have ex: "map (expectedImage fsArchive ''archive'') (take 4 (p_media postFivePhotos)) =
      [ImageEmbedImpl ''one'' [1, 2, 3] ''image/jpeg'',
       ImageEmbedImpl ''two'' [1, 2, 3] ''image/jpeg'',
       ImageEmbedImpl ''three'' [1, 2, 3] ''image/jpeg'',
       ImageEmbedImpl ''four'' [1, 2, 3] ''image/jpeg'']"
    by (simp add: postFivePhotos_def expectedImage_def toLowerCase_def toLowerChar_def
          getMimeType_def getImageMimeType_def getVideoMimeType_def fileExtension_def
          isVideoMimeType_def isImageTooLarge_def API_LIMIT_IMAGE_UPLOAD_SIZE_def
          processImageBuffer_def processMedia_def processPost_def newDate_def truthyNum_def
          truthyStr_def truthyNat_def toISOString_def nullMediaResult_def
          truncatedMediaText_def derivedMediaText_def POST_TEXT_LIMIT_def
          POST_TEXT_TRUNCATE_SUFFIX_def MAX_IMAGES_PER_POST_def validateVideo_def
          MAX_VIDEO_SIZE_def Let_def fsArchive_def mediaItem_def)
  have six: "processPost fsArchive postSixMedia ''archive'' =
      (fst (processPost fsArchive postSixMedia ''archive''),
       Inr \<lparr>postDate = Some (DateMs 1700000000000), postText = Some ''album'',
          embeddedMedia = Images [ImageEmbedImpl ''one'' [1, 2, 3] ''image/jpeg'',
                                  ImageEmbedImpl ''three'' [1, 2, 3] ''image/jpeg'',
                                  ImageEmbedImpl ''four'' [1, 2, 3] ''image/jpeg''],
          mediaCount = 3\<rparr>) \<and>
      embeddedMedia \<lparr>postDate = Some (DateMs 1700000000000), postText = Some ''album'',
          embeddedMedia = Images [ImageEmbedImpl ''one'' [1, 2, 3] ''image/jpeg'',
                                  ImageEmbedImpl ''three'' [1, 2, 3] ''image/jpeg'',
                                  ImageEmbedImpl ''four'' [1, 2, 3] ''image/jpeg''],
          mediaCount = 3\<rparr> = Images [ImageEmbedImpl ''one'' [1, 2, 3] ''image/jpeg'',
                                  ImageEmbedImpl ''three'' [1, 2, 3] ''image/jpeg'',
                                  ImageEmbedImpl ''four'' [1, 2, 3] ''image/jpeg'']"
    by (simp add: toLowerCase_def toLowerChar_def getMimeType_def getImageMimeType_def
          getVideoMimeType_def fileExtension_def isVideoMimeType_def isImageTooLarge_def
          API_LIMIT_IMAGE_UPLOAD_SIZE_def processImageBuffer_def processMedia_def
          processPost_def newDate_def truthyNum_def truthyStr_def truthyNat_def
          toISOString_def nullMediaResult_def truncatedMediaText_def derivedMediaText_def
          POST_TEXT_LIMIT_def POST_TEXT_TRUNCATE_SUFFIX_def MAX_IMAGES_PER_POST_def
          validateVideo_def MAX_VIDEO_SIZE_def Let_def fsArchive_def mediaItem_def
          postSixMedia_def prod_eq_iff)
  note t = image_list_cap [where env = fsArchive and folder = "''archive''"]
  from t [where post = postFivePhotos, THEN conjunct2, THEN mp, OF h] ex
  have c1: "\<exists>lg pp. processPost fsArchive postFivePhotos ''archive'' = (lg, Inr pp) \<and>
      embeddedMedia pp = Images [ImageEmbedImpl ''one'' [1, 2, 3] ''image/jpeg'',
                                 ImageEmbedImpl ''two'' [1, 2, 3] ''image/jpeg'',
                                 ImageEmbedImpl ''three'' [1, 2, 3] ''image/jpeg'',
                                 ImageEmbedImpl ''four'' [1, 2, 3] ''image/jpeg''] \<and>
      mediaCount pp = 4 \<and> WarnTooManyImages \<in> set lg"
    by simp
  from t [where post = postSixMedia, THEN conjunct1, rule_format, OF six]
  have c2: "length [ImageEmbedImpl ''one'' [1, 2, 3] ''image/jpeg'',
           ImageEmbedImpl ''three'' [1, 2, 3] ''image/jpeg'',
           ImageEmbedImpl ''four'' [1, 2, 3] ''image/jpeg''] \<le> 4" .
  from h c1 c2 show ?thesis by blast
qed

section \<open>Video first\<close>

text \<open>
  What the video branch of \<open>processPost\<close> does when it is reached: a readable video
  within the image upload limit is embedded, and a media result marked as video never
  leads to an image in the embed.
\<close>

lemma small_video_embedded:
  assumes ms: "p_media post = m # rest"
    and rd: "readFileSync env (folder @ ''/'' @ m_uri m) = Inr b"
    and len: "length b \<le> 976000"
    and vid: "isVideoMimeType (snd (getMimeType (fileExtension (m_uri m))))"
    and d: "newDate (m_creation_timestamp m) = DateMs x"
  shows "\<exists>lg pp. processPost env post folder = (lg, Inr pp) \<and>
           embeddedMedia pp = Video (VideoEmbedImpl (truncatedMediaText (derivedMediaText env m)) b
                                      (snd (getMimeType (fileExtension (m_uri m))))) \<and>
           mediaCount pp = 1"
proof -
  obtain lg0 mime where gm: "getMimeType (fileExtension (m_uri m)) = (lg0, mime)"
    by (cases "getMimeType (fileExtension (m_uri m))")
  with vid have v: "isVideoMimeType mime" by simp
  then have ne: "mime \<noteq> []" by (auto simp: isVideoMimeType_def)
  from len have vv: "validateVideo b" by (simp add: validateVideo_def MAX_VIDEO_SIZE_def)
  from rd len gm d v have pm: "processMedia env m folder =
      (lg0 @ [DebugSourceMedia mime (folder @ ''/'' @ m_uri m) True],
       Inr \<lparr>mediaText = truncatedMediaText (derivedMediaText env m), mimeType = Some mime,
            mediaBuffer = Some b, isVideo = True\<rparr>)"
    by (simp add: processMedia_def isImageTooLarge_def API_LIMIT_IMAGE_UPLOAD_SIZE_def
          toISOString_def Let_def)
  from ms pm ne vv gm show ?thesis
    by (simp add: processPost_def Let_def truthyStr_def)
qed

lemma video_result_never_images:
  assumes ms: "p_media post = m # rest"
    and pm: "processMedia env m folder = (lg1, Inr r)" and v: "isVideo r"
    and pp: "processPost env post folder = (lg, Inr pp)"
  shows "embeddedMedia pp = Images [] \<or> (\<exists>video. embeddedMedia pp = Video video)"
  using assms by (auto simp: processPost_def Let_def split: if_splits)

text \<open>
  C1: the code at a readable video of 976,001 bytes, under the 100 MiB ceiling.
  \<open>processMedia\<close> sends every buffer over the image limit with a known MIME type to
  the image resizer, which rejects video data; the media result is the null result,
  and \<open>processPost\<close> returns an empty image list and media count 0, not a video embed.
\<close>

theorem large_video_not_embedded:
  "readFileSync fsArchive ''archive/clip.mp4'' = Inr (replicate 976001 0) \<and>
   length (replicate 976001 (0 :: 8 word)) \<le> 100 * 1024 * 1024 \<and>
   isVideoMimeType (snd (getMimeType (fileExtension ''clip.mp4''))) \<and>
   processPost fsArchive postLargeVideo ''archive'' =
     ([WarnImageTooLarge 976001 ''archive/clip.mp4'',
       ErrorProcessImage ''archive/clip.mp4''
         (Thrown ''Input buffer contains unsupported image format''),
       WarnImageTooLarge 976001 ''archive/clip.mp4'',
       ErrorProcessImage ''archive/clip.mp4''
         (Thrown ''Input buffer contains unsupported image format'')],
      Inr \<lparr>postDate = Some (DateMs 1700000000000), postText = Some ''clip'',
           embeddedMedia = Images [], mediaCount = 0\<rparr>)"
  by (simp add: toLowerCase_def toLowerChar_def getMimeType_def getImageMimeType_def
        getVideoMimeType_def fileExtension_def isVideoMimeType_def isImageTooLarge_def
        API_LIMIT_IMAGE_UPLOAD_SIZE_def processImageBuffer_def processMedia_def
        processPost_def newDate_def truthyNum_def truthyStr_def truthyNat_def
        toISOString_def nullMediaResult_def truncatedMediaText_def derivedMediaText_def
        POST_TEXT_LIMIT_def POST_TEXT_TRUNCATE_SUFFIX_def MAX_IMAGES_PER_POST_def
        validateVideo_def MAX_VIDEO_SIZE_def Let_def fsArchive_def mediaItem_def
        postLargeVideo_def)

text \<open>
  C2: the code at a post whose first media item is a video that cannot be read and
  whose second is a photo. The failed read gives a media result that is not marked as
  video, so \<open>processPost\<close> goes on to the image loop and embeds the photo.
\<close>

theorem unreadable_video_then_photo_embedded:
  "isVideoMimeType (snd (getMimeType (fileExtension ''missing.mp4''))) \<and>
   snd (processPost fsArchive postMissingVideoThenPhoto ''archive'') =
     Inr \<lparr>postDate = Some (DateMs 1700000000000), postText = Some ''mixed'',
          embeddedMedia = Images [ImageEmbedImpl ''two'' [1, 2, 3] ''image/jpeg''],
          mediaCount = 1\<rparr>"
  by (simp add: toLowerCase_def toLowerChar_def getMimeType_def getImageMimeType_def
        getVideoMimeType_def fileExtension_def isVideoMimeType_def isImageTooLarge_def
        API_LIMIT_IMAGE_UPLOAD_SIZE_def processImageBuffer_def processMedia_def
        processPost_def newDate_def truthyNum_def truthyStr_def truthyNat_def
        toISOString_def nullMediaResult_def truncatedMediaText_def derivedMediaText_def
        POST_TEXT_LIMIT_def POST_TEXT_TRUNCATE_SUFFIX_def MAX_IMAGES_PER_POST_def
        validateVideo_def MAX_VIDEO_SIZE_def Let_def fsArchive_def mediaItem_def
        postMissingVideoThenPhoto_def)

section \<open>The orchestrator\<close>

text \<open>
  C4: the code at an archive with a dated post that has no media, in simulate mode.
  Alone in the archive, the post passes the date check and \<open>processPost\<close>, and the
  debug statement that reads \<open>post.media[0].type\<close> throws a TypeError that nothing
  catches. With a second post in the archive, the comparator of the sort reads
  \<open>media[0].creation_timestamp\<close> of the post without media and throws before any post
  is processed. In both runs \<open>main\<close> ends with the error and no post is counted.
\<close>

theorem post_without_media_aborts_run:
  "main cfgSimulate fsArchive clientOk [postNoMedia] =
     (Some TypeError,
      \<lparr>importedPosts = 0, importedMedia = 0, trace = [InfoImportStarted, WarnSimulateMode]\<rparr>) \<and>
   main cfgSimulate fsArchive clientOk [postNoMedia, postAt 1700000000] =
     (Some TypeError,
      \<lparr>importedPosts = 0, importedMedia = 0, trace = [InfoImportStarted, WarnSimulateMode]\<rparr>)"
  by (simp add: toLowerCase_def toLowerChar_def getMimeType_def getImageMimeType_def
        getVideoMimeType_def fileExtension_def isVideoMimeType_def isImageTooLarge_def
        API_LIMIT_IMAGE_UPLOAD_SIZE_def processImageBuffer_def processMedia_def
        processPost_def newDate_def truthyNum_def truthyStr_def truthyNat_def
        toISOString_def nullMediaResult_def truncatedMediaText_def derivedMediaText_def
        POST_TEXT_LIMIT_def POST_TEXT_TRUNCATE_SUFFIX_def MAX_IMAGES_PER_POST_def
        validateVideo_def MAX_VIDEO_SIZE_def Let_def fsArchive_def mediaItem_def
        postStep_def checkDateOf_def submitPost_def processVideoPost_def
        getArchiveFolder_def logEvents_def dateGreater_def API_RATE_LIMIT_DELAY_def
        comparePosts_def sortPosts_def countAndMakeRun_def main_def cfgSimulate_def clientOk_def postNoMedia_def postAt_def)

text \<open>
  C5: the code in live mode at one dated post with one photo, when \<open>createPost\<close>
  throws. The post counter stays 0, but the statement that adds the media count is
  after the \<open>try\<close>/\<open>catch\<close> and runs: the media counter ends at 1.
\<close>

theorem failed_submission_counts_media:
  "main cfgLive fsArchive clientRejecting [postAt 1700000000] =
     (None,
      \<lparr>importedPosts = 0, importedMedia = 1,
       trace =
         [InfoImportStarted, InfoLiveMode, LoginCall,
          Media (DebugSourceMedia ''image/jpeg'' ''archive/a.jpg'' False),
          Media (DebugSourceMedia ''image/jpeg'' ''archive/a.jpg'' False),
          DebugProcessingPostMedia None 1, DebugUsingPhoto 1, Sleep 3000,
          CreatePostCall (DateMs 1700000000000) (Some ''photo'')
            (FromProcessPost (Images [ImageEmbedImpl ''one'' [1, 2, 3] ''image/jpeg''])),
          ErrorCreatePost (Thrown ''request failed''), DebugInstagramPost,
          InfoImportFinished 0 1]\<rparr>)"
  by (simp add: toLowerCase_def toLowerChar_def getMimeType_def getImageMimeType_def
        getVideoMimeType_def fileExtension_def isVideoMimeType_def isImageTooLarge_def
        API_LIMIT_IMAGE_UPLOAD_SIZE_def processImageBuffer_def processMedia_def
        processPost_def newDate_def truthyNum_def truthyStr_def truthyNat_def
        toISOString_def nullMediaResult_def truncatedMediaText_def derivedMediaText_def
        POST_TEXT_LIMIT_def POST_TEXT_TRUNCATE_SUFFIX_def MAX_IMAGES_PER_POST_def
        validateVideo_def MAX_VIDEO_SIZE_def Let_def fsArchive_def mediaItem_def
        postStep_def checkDateOf_def submitPost_def processVideoPost_def
        getArchiveFolder_def logEvents_def dateGreater_def API_RATE_LIMIT_DELAY_def
        comparePosts_def sortPosts_def countAndMakeRun_def main_def cfgLive_def clientRejecting_def postAt_def)

lemma postStep_after_max:
  assumes "MAX_DATE cfg = Some mx" and "checkDateOf p = Inr (Some d)" and "dateGreater d mx"
    and "case MIN_DATE cfg of None \<Rightarrow> True | Some mn \<Rightarrow> \<not> dateLess d mn"
  shows "postStep cfg fs cl p st = (Stop, logEvents st [WarnAfterMaxDate d])"
  using assms by (simp add: postStep_def split: option.splits)

lemma postStep_before_min:
  assumes "MIN_DATE cfg = Some mn" and "checkDateOf p = Inr (Some d)" and "dateLess d mn"
  shows "postStep cfg fs cl p st = (Next, logEvents st [WarnBeforeMinDate d])"
  using assms by (simp add: postStep_def)

lemma runPosts_stops:
  assumes stop: "\<And>s. fst (postStep cfg fs cl p s) = Stop"
  shows "runPosts cfg fs cl (pre @ p # rest) st = runPosts cfg fs cl (pre @ [p]) st"
proof (induction pre arbitrary: st)
  case Nil
  obtain c s' where ps: "postStep cfg fs cl p st = (c, s')" by (cases "postStep cfg fs cl p st")
  with stop [of st] have "c = Stop" by simp
  with ps show ?case by simp
next
  case (Cons q pre)
  obtain c s' where ps: "postStep cfg fs cl q st = (c, s')" by (cases "postStep cfg fs cl q st")
  show ?case
  proof (cases c)
    case Next
    with ps Cons.IH [of s'] show ?thesis by simp
  next
    case Stop
    with ps show ?thesis by simp
  next
    case (Abort e)
    with ps show ?thesis by simp
  qed
qed

text \<open>
  C9, as stated, fails when MIN_DATE is later than MAX_DATE: the check against MIN_DATE
  comes first, so a post whose check-date is after MAX_DATE and before MIN_DATE is
  skipped and the loop goes on to evaluate the next post.
\<close>

theorem after_max_before_min_counterexample:
  "MAX_DATE cfgInverted = Some (DateMs 1600000000000) \<and>
   checkDateOf (postAt 1700000000) = Inr (Some (DateMs 1700000000000)) \<and>
   dateGreater (DateMs 1700000000000) (DateMs 1600000000000) \<and>
   runPosts cfgInverted fsArchive clientOk [postAt 1700000000, postAt 1700000100] emptyRun =
     (None,
      \<lparr>importedPosts = 0, importedMedia = 0,
       trace = [WarnBeforeMinDate (DateMs 1700000000000),
                WarnBeforeMinDate (DateMs 1700000100000)]\<rparr>) \<and>
   runPosts cfgInverted fsArchive clientOk [postAt 1700000000, postAt 1700000100] emptyRun
     \<noteq> runPosts cfgInverted fsArchive clientOk [postAt 1700000000] emptyRun"
  by (simp add: toLowerCase_def toLowerChar_def getMimeType_def getImageMimeType_def
        getVideoMimeType_def fileExtension_def isVideoMimeType_def isImageTooLarge_def
        API_LIMIT_IMAGE_UPLOAD_SIZE_def processImageBuffer_def processMedia_def
        processPost_def newDate_def truthyNum_def truthyStr_def truthyNat_def
        toISOString_def nullMediaResult_def truncatedMediaText_def derivedMediaText_def
        POST_TEXT_LIMIT_def POST_TEXT_TRUNCATE_SUFFIX_def MAX_IMAGES_PER_POST_def
        validateVideo_def MAX_VIDEO_SIZE_def Let_def fsArchive_def mediaItem_def
        postStep_def checkDateOf_def submitPost_def processVideoPost_def
        getArchiveFolder_def logEvents_def dateGreater_def API_RATE_LIMIT_DELAY_def
        clientOk_def emptyRun_def postAt_def cfgInverted_def)

text \<open>
  C9, amended: in a run with MAX_DATE set, once a post has a check-date strictly
  greater than MAX_DATE and not before a set MIN_DATE, the loop stops with the
  after-MAX_DATE warning: the result of the run does not depend on the posts that
  follow, whatever their dates. A post whose check-date is before a set MIN_DATE is
  skipped with the before-MIN_DATE warning and the loop goes on with the next post.
\<close>

theorem max_date_stops_run:
  "(MAX_DATE cfg = Some mx \<and> checkDateOf p = Inr (Some d) \<and> dateGreater d mx \<and>
    (case MIN_DATE cfg of None \<Rightarrow> True | Some mn \<Rightarrow> \<not> dateLess d mn) \<longrightarrow>
      runPosts cfg fs cl (p # rest) st = (None, logEvents st [WarnAfterMaxDate d]) \<and>
      runPosts cfg fs cl (pre @ p # rest) st = runPosts cfg fs cl (pre @ [p]) st) \<and>
   (MIN_DATE cfg = Some mn \<and> checkDateOf p = Inr (Some d) \<and> dateLess d mn \<longrightarrow>
      runPosts cfg fs cl (p # rest) st
        = runPosts cfg fs cl rest (logEvents st [WarnBeforeMinDate d]))"
proof (intro conjI impI)
  assume h: "MAX_DATE cfg = Some mx \<and> checkDateOf p = Inr (Some d) \<and> dateGreater d mx \<and>
    (case MIN_DATE cfg of None \<Rightarrow> True | Some mn \<Rightarrow> \<not> dateLess d mn)"
  then have step: "\<And>s. postStep cfg fs cl p s = (Stop, logEvents s [WarnAfterMaxDate d])"
    by (simp add: postStep_after_max)
  from step [of st] show "runPosts cfg fs cl (p # rest) st = (None, logEvents st [WarnAfterMaxDate d])"
    by simp
  from step have "\<And>s. fst (postStep cfg fs cl p s) = Stop" by simp
  then show "runPosts cfg fs cl (pre @ p # rest) st = runPosts cfg fs cl (pre @ [p]) st"
    by (rule runPosts_stops)
next
  assume "MIN_DATE cfg = Some mn \<and> checkDateOf p = Inr (Some d) \<and> dateLess d mn"
  then have "postStep cfg fs cl p st = (Next, logEvents st [WarnBeforeMinDate d])"
    by (simp add: postStep_before_min)
  then show "runPosts cfg fs cl (p # rest) st
        = runPosts cfg fs cl rest (logEvents st [WarnBeforeMinDate d])"
    by simp
qed

theorem max_date_stops_run_witness:
  "runPosts cfgBounded fsArchive clientOk [postAt 1800000000, postAt 1700000050] emptyRun
     = (None, logEvents emptyRun [WarnAfterMaxDate (DateMs 1800000000000)]) \<and>
   runPosts cfgBounded fsArchive clientOk
       ([postAt 1600000000, postAt 1700000000] @ postAt 1800000000 # [postAt 1700000050]) emptyRun
     = runPosts cfgBounded fsArchive clientOk
       ([postAt 1600000000, postAt 1700000000] @ [postAt 1800000000]) emptyRun \<and>
   runPosts cfgBounded fsArchive clientOk [postAt 1600000000, postAt 1700000000] emptyRun
     = runPosts cfgBounded fsArchive clientOk [postAt 1700000000]
         (logEvents emptyRun [WarnBeforeMinDate (DateMs 1600000000000)])"
proof -
  have h1: "MAX_DATE cfgBounded = Some (DateMs 1750000000000) \<and>
      checkDateOf (postAt 1800000000) = Inr (Some (DateMs 1800000000000)) \<and>
      dateGreater (DateMs 1800000000000) (DateMs 1750000000000) \<and>
      (case MIN_DATE cfgBounded of None \<Rightarrow> True
       | Some mn \<Rightarrow> \<not> dateLess (DateMs 1800000000000) mn)"
    by (simp add: cfgBounded_def postAt_def checkDateOf_def truthyNum_def newDate_def
          dateGreater_def)
  have h2: "MIN_DATE cfgBounded = Some (DateMs 1650000000000) \<and>
      checkDateOf (postAt 1600000000) = Inr (Some (DateMs 1600000000000)) \<and>
      dateLess (DateMs 1600000000000) (DateMs 1650000000000)"
    by (simp add: cfgBounded_def postAt_def checkDateOf_def truthyNum_def newDate_def)
  note t1 = max_date_stops_run [where cfg = cfgBounded and fs = fsArchive and cl = clientOk
      and p = "postAt 1800000000" and rest = "[postAt 1700000050]" and st = emptyRun
      and pre = "[postAt 1600000000, postAt 1700000000]",
      THEN conjunct1, THEN mp, OF h1]
  note t2 = max_date_stops_run [where cfg = cfgBounded and fs = fsArchive and cl = clientOk
      and p = "postAt 1600000000" and rest = "[postAt 1700000000]" and st = emptyRun,
      THEN conjunct2, THEN mp, OF h2]
  from t1 t2 show ?thesis by blast
qed

end
